theory Spec2Isabelle
  imports Complex_Main "HOL-Library.Sublist"
begin

section \<open>JavaScript numbers\<close>

text \<open>
  The services compute with JavaScript numbers. Finite values are modelled as reals (no
  rounding, no overflow); timestamps read from \<^verbatim>\<open>Date.now()\<close> are integers
  (milliseconds). A division is the one place where finite operands leave the finite
  numbers, so its result is a \<open>jsnum\<close>: HOL's \<open>x / 0 = 0\<close> is not what the
  program computes. The sign of a zero is not tracked: a zero divisor is \<open>+0\<close>.
\<close>

datatype jsnum = Finite real | PosInfinity | NegInfinity | NaN

definition js_div :: "real \<Rightarrow> real \<Rightarrow> jsnum" where
  "js_div a b =
     (if b \<noteq> 0 then Finite (a / b)
      else if 0 < a then PosInfinity
      else if a < 0 then NegInfinity
      else NaN)"

fun js_times :: "jsnum \<Rightarrow> real \<Rightarrow> jsnum" where
  "js_times (Finite x) c = Finite (x * c)"
| "js_times PosInfinity c = (if 0 < c then PosInfinity else if c < 0 then NegInfinity else NaN)"
| "js_times NegInfinity c = (if 0 < c then NegInfinity else if c < 0 then PosInfinity else NaN)"
| "js_times NaN c = NaN"

fun js_divide_by :: "jsnum \<Rightarrow> real \<Rightarrow> jsnum" where
  "js_divide_by (Finite x) c = js_div x c"
| "js_divide_by PosInfinity c = (if 0 \<le> c then PosInfinity else NegInfinity)"
| "js_divide_by NegInfinity c = (if 0 \<le> c then NegInfinity else PosInfinity)"
| "js_divide_by NaN c = NaN"

fun js_min :: "jsnum \<Rightarrow> real \<Rightarrow> jsnum" where
  "js_min (Finite x) c = Finite (min x c)"
| "js_min PosInfinity c = Finite c"
| "js_min NegInfinity c = NegInfinity"
| "js_min NaN c = NaN"

fun js_plus :: "jsnum \<Rightarrow> jsnum \<Rightarrow> jsnum" where
  "js_plus (Finite x) (Finite y) = Finite (x + y)"
| "js_plus NaN y = NaN"
| "js_plus x NaN = NaN"
| "js_plus PosInfinity NegInfinity = NaN"
| "js_plus NegInfinity PosInfinity = NaN"
| "js_plus PosInfinity y = PosInfinity"
| "js_plus NegInfinity y = NegInfinity"
| "js_plus x PosInfinity = PosInfinity"
| "js_plus x NegInfinity = NegInfinity"

fun js_gt :: "jsnum \<Rightarrow> real \<Rightarrow> bool" where
  "js_gt (Finite x) c = (c < x)"
| "js_gt PosInfinity c = True"
| "js_gt NegInfinity c = False"
| "js_gt NaN c = False"

text \<open>
  What an awaited call of a collaborator can do: return a value, throw an \<open>Error\<close>
  with a message, or throw something that is not an \<open>Error\<close>.
\<close>

datatype 'a outcome = Returned 'a | ThrewError string | ThrewOther


section \<open>utils/RateLimiter.ts: the sliding-window limiter\<close>

text \<open>
  \<open>maxRequests\<close> is a count, \<open>interval\<close> a number of milliseconds. Every call
  of \<^verbatim>\<open>Date.now()\<close> takes the next reading of the clock, the list
  argument; \<^verbatim>\<open>setTimeout\<close> only decides what the next reading is.
\<close>

record RateLimiter =
  maxRequests :: nat
  interval :: int
  timestamps :: "int list"

definition RateLimiter_new :: "nat \<Rightarrow> int \<Rightarrow> RateLimiter" where
  "RateLimiter_new m i = \<lparr>maxRequests = m, interval = i, timestamps = []\<rparr>"

text \<open>
  The time \<open>waitForSlot\<close> sleeps for when no slot is free. With no timestamp left
  (only when \<open>maxRequests = 0\<close>) the source computes \<open>NaN\<close> and does not sleep.
\<close>

definition waitTime :: "RateLimiter \<Rightarrow> int \<Rightarrow> int option" where
  "waitTime L now =
     (case timestamps L of
        [] \<Rightarrow> None
      | oldestTimestamp # _ \<Rightarrow> Some (interval L - (now - oldestTimestamp)))"

text \<open>
  \<open>waitForSlot L clock\<close> returns the limiter, the time of the grant (\<open>None\<close> when
  the call is still waiting at the last reading) and the readings not yet taken.
\<close>

fun waitForSlot :: "RateLimiter \<Rightarrow> int list \<Rightarrow> RateLimiter \<times> int option \<times> int list" where
  "waitForSlot L [] = (L, None, [])"
| "waitForSlot L (now # clock) =
     (let L1 = L\<lparr>timestamps := filter (\<lambda>timestamp. now - timestamp < interval L) (timestamps L)\<rparr>
      in if maxRequests L1 \<le> length (timestamps L1)
         then waitForSlot L1 clock
         else (L1\<lparr>timestamps := timestamps L1 @ [now]\<rparr>, Some now, clock))"

text \<open>The grant times of \<open>n\<close> calls made one after the other, in order.\<close>

fun acquire :: "nat \<Rightarrow> RateLimiter \<Rightarrow> int list \<Rightarrow> int list" where
  "acquire 0 L clock = []"
| "acquire (Suc n) L clock =
     (case waitForSlot L clock of
        (L1, None, rest) \<Rightarrow> []
      | (L1, Some granted, rest) \<Rightarrow> granted # acquire n L1 rest)"

text \<open>The grants that fall into the window of \<open>w\<close> milliseconds that ends at \<open>t\<close>.\<close>

definition in_window :: "int \<Rightarrow> int \<Rightarrow> int list \<Rightarrow> int list" where
  "in_window w t grants = filter (\<lambda>g. t - w < g \<and> g \<le> t) grants"


section \<open>Services/RateLimiter.ts: the token bucket\<close>

record TokenRateLimiter =
  tokens :: real
  lastRefill :: int
  maxTokens :: real
  refillRate :: real

definition refillInterval :: int where
  "refillInterval = 1000"

definition TokenRateLimiter_new :: "real \<Rightarrow> real \<Rightarrow> int \<Rightarrow> TokenRateLimiter" where
  "TokenRateLimiter_new m r now = \<lparr>tokens = m, lastRefill = now, maxTokens = m, refillRate = r\<rparr>"

text \<open>
  \<open>refill now added L\<close>. The number of tokens to add,
  \<^verbatim>\<open>Math.floor((timePassed * this.refillRate) / 1000)\<close>, is computed in double
  arithmetic, where it can differ from the floor of the exact quotient (and so can the
  sleep \<^verbatim>\<open>Math.ceil(1000 / this.refillRate)\<close> of \<open>waitForToken\<close>); like the clock, the
  computed number \<open>added\<close> is an input.
\<close>

definition refill :: "int \<Rightarrow> int \<Rightarrow> TokenRateLimiter \<Rightarrow> TokenRateLimiter" where
  "refill now added L =
     (if 0 < added
      then L\<lparr>tokens := min (maxTokens L) (tokens L + real_of_int added), lastRefill := now\<rparr>
      else L)"

text \<open>
  \<open>waitForToken now added woken added' L\<close>: \<open>now\<close> and \<open>added\<close> belong to the
  first refill, \<open>woken\<close> and \<open>added'\<close> to the refill after the sleep, which runs only
  when the bucket was empty. The token is subtracted without a second test.
\<close>

definition waitForToken ::
  "int \<Rightarrow> int \<Rightarrow> int \<Rightarrow> int \<Rightarrow> TokenRateLimiter \<Rightarrow> TokenRateLimiter" where
  "waitForToken now added woken added' L =
     (let L1 = refill now added L;
          L2 = (if tokens L1 < 1 then refill woken added' L1 else L1)
      in L2\<lparr>tokens := tokens L2 - 1\<rparr>)"

definition reset :: "int \<Rightarrow> TokenRateLimiter \<Rightarrow> TokenRateLimiter" where
  "reset now L = L\<lparr>tokens := maxTokens L, lastRefill := now\<rparr>"

definition tryConsume ::
  "real \<Rightarrow> int \<Rightarrow> int \<Rightarrow> TokenRateLimiter \<Rightarrow> bool \<times> TokenRateLimiter" where
  "tryConsume n now added L =
     (let L1 = refill now added L
      in if n \<le> tokens L1 then (True, L1\<lparr>tokens := tokens L1 - n\<rparr>) else (False, L1))"

text \<open>
  \<open>consume\<close> polls \<open>tryConsume\<close> once per clock reading (each with the number its
  refill computes); \<open>False\<close> says that it is still polling at the last reading.
\<close>

fun consume :: "real \<Rightarrow> (int \<times> int) list \<Rightarrow> TokenRateLimiter \<Rightarrow> bool \<times> TokenRateLimiter" where
  "consume n [] L = (False, L)"
| "consume n ((now, added) # clock) L =
     (case tryConsume n now added L of
        (True, L1) \<Rightarrow> (True, L1)
      | (False, L1) \<Rightarrow> consume n clock L1)"

text \<open>
  The methods are \<open>async\<close>: a call gives way to other calls at each \<open>await\<close>. Between
  two \<open>await\<close>s a call runs one of four pieces without a break: a refill, the test and
  subtraction of \<open>tryConsume\<close>, the subtraction that ends \<open>waitForToken\<close>, or
  \<open>reset\<close>. Calls that overlap, like calls that follow each other, therefore run some
  sequence of these pieces.
\<close>

datatype limiter_step =
    Refill int int
  | Take real
  | TakeOne
  | Reset int

fun step :: "limiter_step \<Rightarrow> TokenRateLimiter \<Rightarrow> TokenRateLimiter" where
  "step (Refill now added) L = refill now added L"
| "step (Take n) L = (if n \<le> tokens L then L\<lparr>tokens := tokens L - n\<rparr> else L)"
| "step TakeOne L = L\<lparr>tokens := tokens L - 1\<rparr>"
| "step (Reset now) L = reset now L"

definition run :: "limiter_step list \<Rightarrow> TokenRateLimiter \<Rightarrow> TokenRateLimiter" where
  "run steps L = foldl (\<lambda>L' s. step s L') L steps"

text \<open>The pieces that a call runs, in order, on the limiter it finds.\<close>

definition waitForToken_steps ::
  "int \<Rightarrow> int \<Rightarrow> int \<Rightarrow> int \<Rightarrow> TokenRateLimiter \<Rightarrow> limiter_step list" where
  "waitForToken_steps now added woken added' L =
     (if tokens (refill now added L) < 1
      then [Refill now added, Refill woken added', TakeOne]
      else [Refill now added, TakeOne])"

fun consume_steps :: "real \<Rightarrow> (int \<times> int) list \<Rightarrow> TokenRateLimiter \<Rightarrow> limiter_step list" where
  "consume_steps n [] L = []"
| "consume_steps n ((now, added) # clock) L =
     [Refill now added, Take n] @
     (if fst (tryConsume n now added L) then []
      else consume_steps n clock (snd (tryConsume n now added L)))"

text \<open>An amount that is not negative.\<close>

fun amount_ok :: "limiter_step \<Rightarrow> bool" where
  "amount_ok (Take n) \<longleftrightarrow> 0 \<le> n"
| "amount_ok (Refill now added) \<longleftrightarrow> True"
| "amount_ok TakeOne \<longleftrightarrow> True"
| "amount_ok (Reset now) \<longleftrightarrow> True"

definition amounts_ok :: "limiter_step list \<Rightarrow> bool" where
  "amounts_ok steps \<longleftrightarrow> (\<forall>s \<in> set steps. amount_ok s)"


section \<open>Services/SolanaService.ts: retryWithBackoff\<close>

definition SOLANA_MAX_RETRIES :: nat where
  "SOLANA_MAX_RETRIES = 3"

definition INITIAL_BACKOFF :: nat where
  "INITIAL_BACKOFF = 1000"

definition isRateLimit :: "string \<Rightarrow> bool" where
  "isRateLimit message \<longleftrightarrow> sublist ''429'' message \<or> sublist ''Too Many Requests'' message"

text \<open>
  \<open>operation k\<close> is what the operation does when it is invoked at retry count \<open>k\<close>.
  The result is what the call returns or throws, with the backoff delays it slept for, in
  order. \<open>throttleRequest\<close>, which paces every attempt and cannot throw, is left out.
\<close>

function retryWithBackoff :: "(nat \<Rightarrow> 'a outcome) \<Rightarrow> nat \<Rightarrow> 'a outcome \<times> nat list" where
  "retryWithBackoff operation retryCount =
     (case operation retryCount of
        Returned v \<Rightarrow> (Returned v, [])
      | ThrewOther \<Rightarrow> (ThrewOther, [])
      | ThrewError message \<Rightarrow>
          if isRateLimit message \<and> retryCount < SOLANA_MAX_RETRIES
          then (let delay = INITIAL_BACKOFF * 2 ^ retryCount;
                    r = retryWithBackoff operation (retryCount + 1)
                in (fst r, delay # snd r))
          else (ThrewError message, []))"
  by pat_completeness auto
termination
  by (relation "measure (\<lambda>(operation, retryCount). SOLANA_MAX_RETRIES - retryCount)") auto



section \<open>RiskManagementService\<close>

text \<open>
  Field names carry a short prefix where two interfaces of the source share a name.
  Of \<open>TokenMetrics\<close>, \<open>RiskMetrics\<close> and \<open>PositionRisk\<close> the fields that the
  service reads or writes are kept.
\<close>

record RiskProfile =
  maxPositionSize :: real
  maxDailyLoss :: real
  maxDrawdown :: real
  maxOpenPositions :: real
  stopLossLevel :: real
  takeProfitLevel :: real
  riskPerTrade :: real
  leverageAllowed :: bool
  maxLeverage :: real

record TokenMetrics =
  volume24h :: real
  priceChange24h :: real
  liquidity :: real
  holders :: real
  transactions24h :: real

record RiskMetrics =
  volatility :: real
  rm_maxDrawdown :: real
  successRate :: real

datatype recommendation = increase | maintain | reduce | close

datatype warningLevel = low | medium | high

record PositionRisk =
  pr_riskScore :: real
  maxLoss :: real
  exposure :: real
  liquidationPrice :: real
  pr_recommendation :: recommendation
  pr_warningLevel :: warningLevel

record TradeDecision =
  approved :: bool
  maxAmount :: real
  riskScore :: jsnum
  td_warnings :: "string list"
  td_timestamp :: int
  suggestedStopLoss :: "real option"
  suggestedTakeProfit :: "real option"

datatype trade_type = buy | sell

record trade =
  trade_amount :: real
  trade_price :: real
  trade_timestamp :: int
  trade_type :: trade_type

record DailyStats =
  totalLoss :: real
  totalProfit :: real
  tradeCount :: nat
  lastReset :: int
  trades :: "string \<rightharpoonup> trade list"

text \<open>
  \<open>positionRisks\<close> is a JavaScript \<open>Map\<close> whose size is read: a list of
  pairs with one pair per key, in insertion order.
\<close>

record RiskManagementService =
  riskProfiles :: "string \<rightharpoonup> RiskProfile"
  positionRisks :: "(string \<times> PositionRisk) list"
  dailyStats :: DailyStats
  maxDailyTrades :: nat

text \<open>
  What a call reads from outside the service: the market analysis (\<open>analyzeToken\<close>
  and \<open>calculateRiskMetrics\<close> of \<open>MarketAnalysisService\<close>, by mint), the clock,
  and the conversion of a number to text inside a template string.
\<close>

record RiskEnv =
  analyzeToken :: "string \<Rightarrow> TokenMetrics option outcome"
  calculateRiskMetrics :: "string \<Rightarrow> RiskMetrics option outcome"
  dateNow :: int
  numberToString :: "real \<Rightarrow> string"

definition DEFAULT_RISK_PROFILE :: RiskProfile where
  "DEFAULT_RISK_PROFILE =
     \<lparr>maxPositionSize = 5, maxDailyLoss = 3, maxDrawdown = 15, maxOpenPositions = 5,
      stopLossLevel = 2, takeProfitLevel = 5, riskPerTrade = 1, leverageAllowed = False,
      maxLeverage = 1\<rparr>"

definition RiskManagementService_new :: "nat \<Rightarrow> int \<Rightarrow> RiskManagementService" where
  "RiskManagementService_new maxTrades now =
     \<lparr>riskProfiles = Map.empty, positionRisks = [],
      dailyStats = \<lparr>totalLoss = 0, totalProfit = 0, tradeCount = 0, lastReset = now,
                    trades = Map.empty\<rparr>,
      maxDailyTrades = maxTrades\<rparr>"

text \<open>
  \<open>calculateRiskScore\<close>: the weighted sum of the four scores, added in the order of
  the keys of \<open>weights\<close>. The sum is exact here; the double sum of the source can
  differ from it in the last places (0.8099999999999999 for 0.81), which decides the
  comparison with 0.8 only for a score at that threshold.
\<close>

definition calculateRiskScore :: "TokenMetrics \<Rightarrow> real \<Rightarrow> real \<Rightarrow> real \<Rightarrow> jsnum" where
  "calculateRiskScore metrics amount price portfolioValue =
     (let positionSize = js_times (js_div (amount * price) portfolioValue) 100;
          liquidityRatio = js_div (amount * price) (liquidity metrics);
          score_positionSize = js_min (js_divide_by positionSize 10) 1;
          score_liquidity = js_min (js_times liquidityRatio 2) 1;
          score_volume = Finite (max 0 (1 - volume24h metrics / 1000000));
          score_priceChange = Finite (min (\<bar>priceChange24h metrics\<bar> / 50) 1)
      in js_plus (js_plus (js_plus (js_plus (Finite 0)
           (js_times score_positionSize (3 / 10)))
           (js_times score_liquidity (3 / 10)))
           (js_times score_volume (2 / 10)))
           (js_times score_priceChange (2 / 10)))"

text \<open>\<^verbatim>\<open>riskMetrics?.volatility || 1\<close>: a missing or zero volatility counts as 1.\<close>

definition calculateVolatility :: "RiskEnv \<Rightarrow> string \<Rightarrow> real outcome" where
  "calculateVolatility env mint =
     (case calculateRiskMetrics env mint of
        Returned None \<Rightarrow> Returned 1
      | Returned (Some riskMetrics) \<Rightarrow>
          Returned (if volatility riskMetrics = 0 then 1 else volatility riskMetrics)
      | ThrewError message \<Rightarrow> ThrewError message
      | ThrewOther \<Rightarrow> ThrewOther)"

definition calculateStopLoss :: "real \<Rightarrow> real \<Rightarrow> real" where
  "calculateStopLoss price level = price * (1 - level / 100)"

definition calculateTakeProfit :: "real \<Rightarrow> real \<Rightarrow> real" where
  "calculateTakeProfit price level = price * (1 + level / 100)"

definition countOpenPositions :: "RiskManagementService \<Rightarrow> nat" where
  "countOpenPositions svc = length (positionRisks svc)"

text \<open>The decision of the three early returns and of the \<open>catch\<close> block.\<close>

definition rejected :: "string \<Rightarrow> int \<Rightarrow> TradeDecision" where
  "rejected warning now =
     \<lparr>approved = False, maxAmount = 0, riskScore = Finite 1, td_warnings = [warning],
      td_timestamp = now, suggestedStopLoss = None, suggestedTakeProfit = None\<rparr>"

definition evaluateTradeRisk ::
  "RiskManagementService \<Rightarrow> RiskEnv \<Rightarrow> string \<Rightarrow> real \<Rightarrow> real \<Rightarrow> real \<Rightarrow> string \<Rightarrow> TradeDecision" where
  "evaluateTradeRisk svc env mint amount price portfolioValue riskProfile =
     (let profile = (case riskProfiles svc riskProfile of
                       Some p \<Rightarrow> p
                     | None \<Rightarrow> DEFAULT_RISK_PROFILE);
          maxAmount0 = (portfolioValue * maxPositionSize profile) / 100
      in if maxDailyTrades svc \<le> tradeCount (dailyStats svc)
         then rejected ''Daily trade limit reached'' (dateNow env)
         else if (portfolioValue * maxDailyLoss profile) / 100 < totalLoss (dailyStats svc)
         then rejected ''Daily loss limit reached'' (dateNow env)
         else
           (case analyzeToken env mint of
              ThrewError message \<Rightarrow> rejected ''Error evaluating risk'' (dateNow env)
            | ThrewOther \<Rightarrow> rejected ''Error evaluating risk'' (dateNow env)
            | Returned None \<Rightarrow> rejected ''Unable to analyze token metrics'' (dateNow env)
            | Returned (Some tokenMetrics) \<Rightarrow>
                (let score = calculateRiskScore tokenMetrics amount price portfolioValue;
                     tooLarge = (maxAmount0 < amount);
                     tooRisky = js_gt score (8 / 10);
                     illiquid = (liquidity tokenMetrics < amount * price * 2);
                     tooMany = (maxOpenPositions profile \<le> real (countOpenPositions svc));
                     warnings4 =
                       (if tooLarge
                        then [''Amount exceeds maximum position size of '' @ numberToString env maxAmount0]
                        else []) @
                       (if tooRisky then [''Risk score too high''] else []) @
                       (if illiquid then [''Insufficient liquidity''] else []) @
                       (if tooMany then [''Maximum number of open positions reached''] else [])
                 in case calculateVolatility env mint of
                      ThrewError message \<Rightarrow> rejected ''Error evaluating risk'' (dateNow env)
                    | ThrewOther \<Rightarrow> rejected ''Error evaluating risk'' (dateNow env)
                    | Returned vol \<Rightarrow>
                        \<lparr>approved = \<not> (tooLarge \<or> tooRisky \<or> illiquid \<or> tooMany),
                         maxAmount = (if 5 / 10 < vol then maxAmount0 * (5 / 10) else maxAmount0),
                         riskScore = score,
                         td_warnings =
                           warnings4 @ (if 5 / 10 < vol then [''High volatility detected''] else []),
                         td_timestamp = dateNow env,
                         suggestedStopLoss = Some (calculateStopLoss price (stopLossLevel profile)),
                         suggestedTakeProfit =
                           Some (calculateTakeProfit price (takeProfitLevel profile))\<rparr>)))"

text \<open>\<open>Map.set\<close> and \<open>Map.delete\<close> on the list of pairs.\<close>

fun Map_set :: "'k \<Rightarrow> 'v \<Rightarrow> ('k \<times> 'v) list \<Rightarrow> ('k \<times> 'v) list" where
  "Map_set k v [] = [(k, v)]"
| "Map_set k v ((k', v') # kvs) = (if k' = k then (k, v) # kvs else (k', v') # Map_set k v kvs)"

definition Map_delete :: "'k \<Rightarrow> ('k \<times> 'v) list \<Rightarrow> ('k \<times> 'v) list" where
  "Map_delete k kvs = filter (\<lambda>kv. fst kv \<noteq> k) kvs"

definition calculatePositionRisk :: "RiskEnv \<Rightarrow> string \<Rightarrow> real \<Rightarrow> real \<Rightarrow> real outcome" where
  "calculatePositionRisk env mint amount price =
     (case analyzeToken env mint of
        ThrewError message \<Rightarrow> ThrewError message
      | ThrewOther \<Rightarrow> ThrewOther
      | Returned None \<Rightarrow> Returned 1
      | Returned (Some metrics) \<Rightarrow>
          (case calculateRiskMetrics env mint of
             ThrewError message \<Rightarrow> ThrewError message
           | ThrewOther \<Rightarrow> ThrewOther
           | Returned None \<Rightarrow> Returned 1
           | Returned (Some riskMetrics) \<Rightarrow>
               Returned (volatility riskMetrics * (3 / 10) + rm_maxDrawdown riskMetrics * (3 / 10) +
                         (1 - successRate riskMetrics) * (4 / 10))))"

definition tradesOf :: "RiskManagementService \<Rightarrow> string \<Rightarrow> trade list" where
  "tradesOf svc mint = (case trades (dailyStats svc) mint of Some ts \<Rightarrow> ts | None \<Rightarrow> [])"

definition updateDailyStats :: "RiskManagementService \<Rightarrow> string \<Rightarrow> RiskManagementService" where
  "updateDailyStats svc mint =
     (let ts = tradesOf svc mint
      in if length ts < 2 then svc
         else
           (let lastTrade = ts ! (length ts - 1);
                previousTrade = ts ! (length ts - 2);
                stats = dailyStats svc;
                stats1 =
                  (if trade_type lastTrade = sell \<and> trade_type previousTrade = buy
                   then (let pnl = (trade_price lastTrade - trade_price previousTrade) * trade_amount lastTrade
                         in if 0 < pnl
                            then stats\<lparr>totalProfit := totalProfit stats + pnl\<rparr>
                            else stats\<lparr>totalLoss := totalLoss stats + \<bar>pnl\<bar>\<rparr>)
                   else stats)
            in svc\<lparr>dailyStats := stats1\<lparr>tradeCount := tradeCount stats1 + 1\<rparr>\<rparr>))"

text \<open>
  \<open>updatePosition\<close> returns the service and whether the call completed; a throw of the
  market analysis while the position risk is computed rejects the call after the trade
  has been recorded.
\<close>

definition updatePosition ::
  "RiskManagementService \<Rightarrow> RiskEnv \<Rightarrow> string \<Rightarrow> real \<Rightarrow> real \<Rightarrow> trade_type
     \<Rightarrow> unit outcome \<times> RiskManagementService" where
  "updatePosition svc env mint amount price type =
     (let ts = tradesOf svc mint @
               [\<lparr>trade_amount = amount, trade_price = price, trade_timestamp = dateNow env,
                 trade_type = type\<rparr>];
          stats = dailyStats svc;
          svc1 = svc\<lparr>dailyStats := stats\<lparr>trades := (trades stats)(mint \<mapsto> ts)\<rparr>\<rparr>
      in if type = buy
         then (case calculatePositionRisk env mint amount price of
                 ThrewError message \<Rightarrow> (ThrewError message, svc1)
               | ThrewOther \<Rightarrow> (ThrewOther, svc1)
               | Returned risk \<Rightarrow>
                   (Returned (),
                    updateDailyStats
                      (svc1\<lparr>positionRisks :=
                         Map_set mint
                           \<lparr>pr_riskScore = risk, maxLoss = amount * price * (1 / 10),
                            exposure = amount * price, liquidationPrice = price * (9 / 10),
                            pr_recommendation = maintain, pr_warningLevel = low\<rparr>
                           (positionRisks svc1)\<rparr>)
                      mint))
         else (Returned (),
               updateDailyStats (svc1\<lparr>positionRisks := Map_delete mint (positionRisks svc1)\<rparr>) mint))"

definition resetDailyStats :: "RiskManagementService \<Rightarrow> int \<Rightarrow> RiskManagementService" where
  "resetDailyStats svc now =
     svc\<lparr>dailyStats := \<lparr>totalLoss = 0, totalProfit = 0, tradeCount = 0, lastReset = now,
                          trades = Map.empty\<rparr>\<rparr>"

section \<open>OrderManagementService\<close>

datatype OrderSide = BUY | SELL

datatype OrderType = MARKET | LIMIT | STOP_LIMIT

datatype OrderStatus = PENDING | FILLED | CANCELLED | FAILED

datatype OrderExecutionStrategy = NORMAL | AGGRESSIVE | PASSIVE

record OrderFill =
  fill_price :: real
  fill_amount :: real
  fill_timestamp :: int

record Order =
  orderId :: string
  mint :: string
  side :: OrderSide
  orderType :: OrderType
  amount :: real
  price :: "real option"
  strategy :: OrderExecutionStrategy
  status :: OrderStatus
  createdAt :: int
  updatedAt :: int
  fills :: "OrderFill list"
  remainingAmount :: real
  averagePrice :: jsnum
  retryCount :: nat
  warnings :: "string list"
  stopLoss :: "real option"
  takeProfit :: "real option"

record OrderBook =
  bids :: "(real \<times> real) list"
  asks :: "(real \<times> real) list"
  ob_timestamp :: int

text \<open>
  The two values \<open>executeOrder\<close> builds: a failure with its error text, or a success
  with signature, price, amount and timestamp.
\<close>

datatype ExecutionResult =
    ExecutionFailed string
  | ExecutionSucceeded string real real int

text \<open>
  \<open>pendingOrders\<close> is a JavaScript \<open>Set\<close>, iterated in insertion order: a list
  that \<open>Set_add\<close> keeps free of duplicates.
\<close>

record OrderManagementService =
  orders :: "string \<rightharpoonup> Order"
  pendingOrders :: "string list"

definition MAX_RETRIES :: nat where
  "MAX_RETRIES = 3"

definition MAX_CONCURRENT_ORDERS :: nat where
  "MAX_CONCURRENT_ORDERS = 10"

definition OrderManagementService_new :: OrderManagementService where
  "OrderManagementService_new = \<lparr>orders = Map.empty, pendingOrders = []\<rparr>"

definition Set_add :: "'a \<Rightarrow> 'a list \<Rightarrow> 'a list" where
  "Set_add x xs = (if x \<in> set xs then xs else xs @ [x])"

definition Set_delete :: "'a \<Rightarrow> 'a list \<Rightarrow> 'a list" where
  "Set_delete x xs = removeAll x xs"

text \<open>
  The sending of the transaction: \<open>createOrderTransaction\<close>,
  \<open>sendTransaction\<close> or \<open>confirmTransaction\<close> throws, the confirmation carries an
  error, or the transaction is confirmed under a signature.
\<close>

datatype TransactionOutcome =
    TransactionThrew string
  | TransactionThrewOther
  | ConfirmationError string
  | Confirmed string

text \<open>
  What one execution attempt reads from outside the service. In the source
  \<open>getOrderBook\<close> and \<open>createOrderTransaction\<close> are placeholders for the exchange
  (the first returns \<open>null\<close>, the second throws \<open>Not implemented\<close>); their
  results are inputs here, and the source is the instance with no order book.
  \<open>marketPrice\<close> is \<open>marketAnalysis.getCurrentPrice\<close>.
\<close>

record AttemptEnv =
  orderBook :: "OrderBook option"
  marketPrice :: "real option outcome"
  transaction :: TransactionOutcome
  executedAt :: int
  statusUpdatedAt :: int

text \<open>\<^verbatim>\<open>price || 0\<close>, and 0 when the market analysis throws.\<close>

definition getCurrentPrice :: "AttemptEnv \<Rightarrow> real" where
  "getCurrentPrice env =
     (case marketPrice env of
        Returned (Some p) \<Rightarrow> p
      | Returned None \<Rightarrow> 0
      | ThrewError message \<Rightarrow> 0
      | ThrewOther \<Rightarrow> 0)"

text \<open>\<^verbatim>\<open>!x\<close> on an optional number: missing or zero.\<close>

definition falsy :: "real option \<Rightarrow> bool" where
  "falsy x \<longleftrightarrow> (case x of None \<Rightarrow> True | Some v \<Rightarrow> v = 0)"

definition checkExecutionConditions :: "Order \<Rightarrow> real \<Rightarrow> bool" where
  "checkExecutionConditions order currentPrice =
     (if currentPrice = 0 then False
      else case orderType order of
        MARKET \<Rightarrow> True
      | LIMIT \<Rightarrow>
          (case price order of
             None \<Rightarrow> False
           | Some p \<Rightarrow>
               if p = 0 then False
               else if side order = BUY then currentPrice \<le> p else p \<le> currentPrice)
      | STOP_LIMIT \<Rightarrow>
          (case stopLoss order of
             None \<Rightarrow> False
           | Some s \<Rightarrow>
               if falsy (price order) \<or> s = 0 then False
               else if side order = SELL then currentPrice \<le> s else s \<le> currentPrice))"

definition executeOrder :: "Order \<Rightarrow> AttemptEnv \<Rightarrow> ExecutionResult" where
  "executeOrder order env =
     (case orderBook env of
        None \<Rightarrow> ExecutionFailed ''Unable to fetch order book''
      | Some book \<Rightarrow>
          (let currentPrice = getCurrentPrice env
           in if \<not> checkExecutionConditions order currentPrice
              then ExecutionFailed ''Execution conditions not met''
              else case transaction env of
                     TransactionThrew message \<Rightarrow> ExecutionFailed message
                   | TransactionThrewOther \<Rightarrow> ExecutionFailed ''Unknown execution error''
                   | ConfirmationError err \<Rightarrow> ExecutionFailed (''Transaction failed: '' @ err)
                   | Confirmed signature \<Rightarrow>
                       ExecutionSucceeded signature currentPrice (amount order) (executedAt env)))"

text \<open>
  \<open>updateOrderStatus\<close>: the two \<open>reduce\<close> calls are left folds over the fills.
\<close>

definition updateOrderStatus ::
  "OrderManagementService \<Rightarrow> string \<Rightarrow> OrderStatus \<Rightarrow> ExecutionResult option \<Rightarrow> int
     \<Rightarrow> OrderManagementService" where
  "updateOrderStatus svc oid newStatus result now =
     (case orders svc oid of
        None \<Rightarrow> svc
      | Some order \<Rightarrow>
          (let order1 = order\<lparr>status := newStatus, updatedAt := now\<rparr>;
               order2 =
                 (case result of
                    Some (ExecutionSucceeded signature p a t) \<Rightarrow>
                      (let fills1 = fills order1 @
                                    [\<lparr>fill_price = p, fill_amount = a, fill_timestamp = t\<rparr>];
                           totalAmount = foldl (\<lambda>sum fill. sum + fill_amount fill) 0 fills1;
                           weightedSum =
                             foldl (\<lambda>sum fill. sum + fill_price fill * fill_amount fill) 0 fills1
                       in order1\<lparr>fills := fills1,
                                 averagePrice := js_div weightedSum totalAmount,
                                 remainingAmount :=
                                   max 0 (amount order1 -
                                          foldl (\<lambda>sum fill. sum + fill_amount fill) 0 fills1)\<rparr>)
                  | Some (ExecutionFailed message) \<Rightarrow> order1
                  | None \<Rightarrow> order1)
           in svc\<lparr>orders := (orders svc)(oid \<mapsto> order2)\<rparr>))"

text \<open>
  \<open>createOrder\<close>. The risk decision (\<open>riskManagement.evaluateTradeRisk\<close>, which may
  also throw), the generated identifier and the clock are inputs. The limiter's
  \<open>waitForSlot\<close> only delays the call and is left out, here and in the scan.
\<close>

definition createOrder ::
  "OrderManagementService \<Rightarrow> TradeDecision outcome \<Rightarrow> string \<Rightarrow> int \<Rightarrow>
   string \<Rightarrow> OrderSide \<Rightarrow> OrderType \<Rightarrow> real \<Rightarrow> real option \<Rightarrow> OrderExecutionStrategy
     \<Rightarrow> string option \<times> OrderManagementService" where
  "createOrder svc riskCheck newId now mint' side' type' amount' price' strategy' =
     (if MAX_CONCURRENT_ORDERS \<le> length (pendingOrders svc) then (None, svc)
      else case riskCheck of
        ThrewError message \<Rightarrow> (None, svc)
      | ThrewOther \<Rightarrow> (None, svc)
      | Returned decision \<Rightarrow>
          if \<not> approved decision then (None, svc)
          else
            (let order =
                   \<lparr>orderId = newId, mint = mint', side = side', orderType = type',
                    amount = amount', price = price', strategy = strategy', status = PENDING,
                    createdAt = now, updatedAt = now, fills = [], remainingAmount = amount',
                    averagePrice = Finite 0, retryCount = 0, warnings = [],
                    stopLoss = suggestedStopLoss decision,
                    takeProfit = suggestedTakeProfit decision\<rparr>
             in (Some newId,
                 svc\<lparr>orders := (orders svc)(newId \<mapsto> order),
                     pendingOrders := Set_add newId (pendingOrders svc)\<rparr>)))"

text \<open>The body of the scan's loop, for one identifier of the pending set.\<close>

definition processOrder :: "OrderManagementService \<Rightarrow> AttemptEnv \<Rightarrow> string \<Rightarrow> OrderManagementService" where
  "processOrder svc env oid =
     (case orders svc oid of
        None \<Rightarrow> svc
      | Some order \<Rightarrow>
          (case executeOrder order env of
             ExecutionSucceeded signature p a t \<Rightarrow>
               updateOrderStatus (svc\<lparr>pendingOrders := Set_delete oid (pendingOrders svc)\<rparr>)
                 oid FILLED (Some (ExecutionSucceeded signature p a t)) (statusUpdatedAt env)
           | ExecutionFailed message \<Rightarrow>
               if MAX_RETRIES \<le> retryCount order
               then updateOrderStatus (svc\<lparr>pendingOrders := Set_delete oid (pendingOrders svc)\<rparr>)
                      oid FAILED (Some (ExecutionFailed message)) (statusUpdatedAt env)
               else svc\<lparr>orders := (orders svc)(oid \<mapsto>
                      order\<lparr>retryCount := retryCount order + 1,
                            warnings := warnings order @
                              [if message = [] then ''Unknown execution error'' else message]\<rparr>)\<rparr>))"

text \<open>
  One scan: the loop over the pending set. An identifier deleted during the loop is the
  one being visited, so the loop visits the identifiers that were pending at its start.
  \<open>env oid\<close> is what the attempt on \<open>oid\<close> reads.
\<close>

definition processPendingOrders ::
  "OrderManagementService \<Rightarrow> (string \<Rightarrow> AttemptEnv) \<Rightarrow> OrderManagementService" where
  "processPendingOrders svc env =
     foldl (\<lambda>s oid. processOrder s (env oid) oid) svc (pendingOrders svc)"

definition cancelOrder :: "OrderManagementService \<Rightarrow> string \<Rightarrow> int \<Rightarrow> bool \<times> OrderManagementService" where
  "cancelOrder svc oid now =
     (case orders svc oid of
        None \<Rightarrow> (False, svc)
      | Some order \<Rightarrow>
          if status order \<noteq> PENDING then (False, svc)
          else (True,
                updateOrderStatus (svc\<lparr>pendingOrders := Set_delete oid (pendingOrders svc)\<rparr>)
                  oid CANCELLED None now))"

text \<open>
  The operations of the service, with what each reads from outside. \<open>Scan\<close> is a
  scan that nothing interrupts. \<open>processPendingOrders\<close> is \<open>async\<close>, though: the body
  of its loop gives way at \<^verbatim>\<open>await this.rateLimiter.waitForSlot()\<close> and at
  \<^verbatim>\<open>await this.executeOrder(order)\<close>, and other operations of the service may run
  before it goes on. All that the body writes, it writes after the second \<open>await\<close>,
  to the order object and the pending set as they are then; the order it holds is the
  object of the map; the outcome of the attempt depends on no field that another
  operation writes. \<open>Resume oid env\<close> is that loop body for \<open>oid\<close>, placed in the
  history where it goes on after its \<open>await\<close>s.
\<close>

datatype OrderOperation =
    CreateOrder "TradeDecision outcome" string int string OrderSide OrderType real "real option"
      OrderExecutionStrategy
  | Scan "string \<Rightarrow> AttemptEnv"
  | CancelOrder string int
  | Resume string AttemptEnv

fun perform :: "OrderManagementService \<Rightarrow> OrderOperation \<Rightarrow> OrderManagementService" where
  "perform svc (CreateOrder riskCheck newId now m s t a p st) =
     snd (createOrder svc riskCheck newId now m s t a p st)"
| "perform svc (Scan env) = processPendingOrders svc env"
| "perform svc (CancelOrder oid now) = snd (cancelOrder svc oid now)"
| "perform svc (Resume oid env) = processOrder svc env oid"

text \<open>
  A history of operations in which every generated identifier is new, as the data model
  has it (identifiers are unique), and in which a loop body that goes on after its
  \<open>await\<close>s finds its order still in the pending set.
\<close>

fun undisturbed :: "OrderManagementService \<Rightarrow> OrderOperation \<Rightarrow> bool" where
  "undisturbed svc (CreateOrder riskCheck newId now m s t a p st) \<longleftrightarrow> orders svc newId = None"
| "undisturbed svc (Scan env) \<longleftrightarrow> True"
| "undisturbed svc (CancelOrder oid now) \<longleftrightarrow> True"
| "undisturbed svc (Resume oid env) \<longleftrightarrow> oid \<in> set (pendingOrders svc)"

fun undisturbed_history :: "OrderManagementService \<Rightarrow> OrderOperation list \<Rightarrow> bool" where
  "undisturbed_history svc [] \<longleftrightarrow> True"
| "undisturbed_history svc (op # ops) \<longleftrightarrow>
     undisturbed svc op \<and> undisturbed_history (perform svc op) ops"

text \<open>The scans of a list of scan environments, one after the other.\<close>

definition scans :: "OrderManagementService \<Rightarrow> (string \<Rightarrow> AttemptEnv) list \<Rightarrow> OrderManagementService" where
  "scans svc envs = foldl processPendingOrders svc envs"

section \<open>Predicates of the statements\<close>

text \<open>The timestamps that \<open>waitForSlot\<close> keeps at clock reading \<open>x\<close>.\<close>

definition live :: "int \<Rightarrow> int \<Rightarrow> int list \<Rightarrow> int list" where
  "live w x ts = filter (\<lambda>timestamp. x - timestamp < w) ts"

text \<open>
  The sliding-window limiter against the grants made so far (\<open>hist\<close>) and the clock
  readings to come: time does not run backwards, the stored timestamps are the grants that
  a later reading can still see, and no window of the history is over capacity.
\<close>

definition window_inv :: "RateLimiter \<Rightarrow> int list \<Rightarrow> int list \<Rightarrow> bool" where
  "window_inv L hist clock \<longleftrightarrow>
     sorted (hist @ clock) \<and>
     (\<forall>x \<in> set clock. live (interval L) x (timestamps L) = live (interval L) x hist) \<and>
     (\<forall>t. length (in_window (interval L) t hist) \<le> maxRequests L)"

text \<open>
  The profile a call works with:
  \<^verbatim>\<open>this.riskProfiles.get(riskProfile) || this.DEFAULT_RISK_PROFILE\<close>.
\<close>

definition profileOf :: "RiskManagementService \<Rightarrow> string \<Rightarrow> RiskProfile" where
  "profileOf svc riskProfile =
     (case riskProfiles svc riskProfile of Some p \<Rightarrow> p | None \<Rightarrow> DEFAULT_RISK_PROFILE)"

text \<open>Every identifier of the pending set, listed once, is that of a stored order that is PENDING.\<close>

definition pending_inv :: "OrderManagementService \<Rightarrow> bool" where
  "pending_inv svc \<longleftrightarrow>
     distinct (pendingOrders svc) \<and>
     (\<forall>oid \<in> set (pendingOrders svc). \<exists>order. orders svc oid = Some order \<and> status order = PENDING)"

definition known :: "OrderManagementService \<Rightarrow> string \<Rightarrow> bool" where
  "known svc oid \<longleftrightarrow> orders svc oid \<noteq> None"


text \<open>
  The cases in which \<open>createOrder\<close> creates no order: the pending set is full, the risk
  check throws, or it does not approve.
\<close>

definition declines :: "OrderManagementService \<Rightarrow> TradeDecision outcome \<Rightarrow> bool" where
  "declines svc riskCheck \<longleftrightarrow>
     MAX_CONCURRENT_ORDERS \<le> length (pendingOrders svc) \<or>
     (case riskCheck of
        Returned decision \<Rightarrow> \<not> approved decision
      | ThrewError message \<Rightarrow> True
      | ThrewOther \<Rightarrow> True)"


section \<open>MarketAnalysisService: analyzeToken and the price history\<close>

text \<open>
  \<open>analyzeToken\<close> is what \<open>evaluateTradeRisk\<close> calls on the market analysis it was
  constructed with. It records the current price in the price history of the mint and
  measures the 24-hour price change on that history. Of the service, the price history
  and its length cap are kept; of \<open>TokenInfo\<close>, the fields that reach the metrics.
\<close>

record PricePoint =
  pp_price :: real
  pp_timestamp :: int


record MarketAnalysisService =
  priceHistory :: "string \<rightharpoonup> PricePoint list"
  maxPriceHistoryLength :: nat



definition MarketAnalysisService_new :: "nat \<Rightarrow> MarketAnalysisService" where
  "MarketAnalysisService_new cap = \<lparr>priceHistory = Map.empty, maxPriceHistoryLength = cap\<rparr>"









section \<open>Sample inputs\<close>

definition sampleMetrics :: TokenMetrics where
  "sampleMetrics =
     \<lparr>volume24h = 2000000, priceChange24h = 10, liquidity = 100000, holders = 100,
      transactions24h = 50\<rparr>"

definition sampleEnv :: RiskEnv where
  "sampleEnv =
     \<lparr>analyzeToken = (\<lambda>m. Returned (Some sampleMetrics)),
      calculateRiskMetrics = (\<lambda>m. Returned None), dateNow = 0, numberToString = (\<lambda>x. ''50'')\<rparr>"

definition noMetricsEnv :: RiskEnv where
  "noMetricsEnv =
     \<lparr>analyzeToken = (\<lambda>m. Returned None), calculateRiskMetrics = (\<lambda>m. Returned None),
      dateNow = 0, numberToString = (\<lambda>x. ''50'')\<rparr>"

definition approvedDecision :: TradeDecision where
  "approvedDecision =
     \<lparr>approved = True, maxAmount = 50, riskScore = Finite (1 / 10), td_warnings = [],
      td_timestamp = 0, suggestedStopLoss = Some (98 / 100),
      suggestedTakeProfit = Some (105 / 100)\<rparr>"

text \<open>The attempt of the source as it stands: \<open>getOrderBook\<close> returns \<open>null\<close>.\<close>

definition noOrderBook :: "string \<Rightarrow> AttemptEnv" where
  "noOrderBook oid =
     \<lparr>orderBook = None, marketPrice = Returned (Some 1),
      transaction = TransactionThrew ''Not implemented'', executedAt = 0, statusUpdatedAt = 0\<rparr>"

definition sampleOrder :: Order where
  "sampleOrder =
     \<lparr>orderId = ''order_1'', mint = ''MINT'', side = BUY, orderType = MARKET, amount = 10,
      price = None, strategy = NORMAL, status = PENDING, createdAt = 0, updatedAt = 0,
      fills = [], remainingAmount = 10, averagePrice = Finite 0, retryCount = 0, warnings = [],
      stopLoss = Some (98 / 100), takeProfit = Some (105 / 100)\<rparr>"

text \<open>The service after one approved \<open>createOrder\<close>.\<close>

definition oneOrder :: OrderManagementService where
  "oneOrder = snd (createOrder OrderManagementService_new (Returned approvedDecision) ''order_1'' 0
                     ''MINT'' BUY MARKET 10 None NORMAL)"










text \<open>
  The history of an order that three scans have attempted, each for want of an order
  book.
\<close>

definition threeAttempts :: "OrderOperation list" where
  "threeAttempts =
     [CreateOrder (Returned approvedDecision) ''order_1'' 0 ''MINT'' BUY MARKET 10 None NORMAL,
      Scan noOrderBook, Scan noOrderBook, Scan noOrderBook]"


section \<open>Properties of retryWithBackoff\<close>

lemma retryWithBackoff_from:
  "length (snd (retryWithBackoff operation k)) \<le> SOLANA_MAX_RETRIES - k \<and>
   fst (retryWithBackoff operation k) = operation (k + length (snd (retryWithBackoff operation k))) \<and>
   (\<forall>i < length (snd (retryWithBackoff operation k)).
       snd (retryWithBackoff operation k) ! i = INITIAL_BACKOFF * 2 ^ (k + i) \<and>
       (\<exists>message. operation (k + i) = ThrewError message \<and> isRateLimit message)) \<and>
   (\<forall>message. fst (retryWithBackoff operation k) = ThrewError message \<and> isRateLimit message \<longrightarrow>
       SOLANA_MAX_RETRIES \<le> k + length (snd (retryWithBackoff operation k)))"
proof (induction operation k rule: retryWithBackoff.induct)
  case (1 operation retryCount)
  show ?case
  proof (cases "operation retryCount")
    case (Returned v)
    then show ?thesis by simp
  next
    case ThrewOther
    then show ?thesis by simp
  next
    case (ThrewError message)
    show ?thesis
    proof (cases "isRateLimit message \<and> retryCount < SOLANA_MAX_RETRIES")
      case False
      with ThrewError show ?thesis by auto
    next
      case True
      note IH = "1.IH"[OF ThrewError True refl]
      from ThrewError True IH show ?thesis
        unfolding retryWithBackoff.simps[of operation retryCount]
        by (auto simp: Let_def nth_Cons split: nat.splits)
    qed
  qed
qed

text \<open>
  C6. A call of \<open>retryWithBackoff\<close> (retry count 0) sleeps at most \<open>MAX_RETRIES\<close>
  times; the \<open>i\<close>-th sleep lasts \<open>INITIAL_BACKOFF * 2 ^ i\<close> and follows an attempt
  that threw an \<open>Error\<close> signalling a rate limit; the call ends with what the attempt
  after the last sleep did, so a failure that is not a rate limit is thrown at once; and
  a rate-limit error is thrown to the caller only when all \<open>MAX_RETRIES\<close> retries
  are used up.
\<close>

theorem retryWithBackoff_policy:
  "length (snd (retryWithBackoff operation 0)) \<le> SOLANA_MAX_RETRIES \<and>
   fst (retryWithBackoff operation 0) = operation (length (snd (retryWithBackoff operation 0))) \<and>
   (\<forall>i < length (snd (retryWithBackoff operation 0)).
       snd (retryWithBackoff operation 0) ! i = INITIAL_BACKOFF * 2 ^ i \<and>
       (\<exists>message. operation i = ThrewError message \<and> isRateLimit message)) \<and>
   (\<forall>message. fst (retryWithBackoff operation 0) = ThrewError message \<and> isRateLimit message \<longrightarrow>
       length (snd (retryWithBackoff operation 0)) = SOLANA_MAX_RETRIES)"
  using retryWithBackoff_from[of operation 0] by auto

theorem retryWithBackoff_policy_witness:
  "fst (retryWithBackoff (\<lambda>k. ThrewError ''429 Too Many Requests'' :: nat outcome) 0)
     = ThrewError ''429 Too Many Requests'' \<and>
   isRateLimit ''429 Too Many Requests'' \<and>
   length (snd (retryWithBackoff (\<lambda>k. ThrewError ''429 Too Many Requests'' :: nat outcome) 0)) = 3"
proof -
  let ?op = "\<lambda>k::nat. ThrewError ''429 Too Many Requests'' :: nat outcome"
  have limit: "isRateLimit ''429 Too Many Requests''"
    by (simp add: isRateLimit_def sublist_code)
  have "fst (retryWithBackoff ?op 0) = ?op (length (snd (retryWithBackoff ?op 0)))"
    using retryWithBackoff_policy[of ?op] by blast
  then have thrown: "fst (retryWithBackoff ?op 0) = ThrewError ''429 Too Many Requests''"
    by simp
  then have "length (snd (retryWithBackoff ?op 0)) = SOLANA_MAX_RETRIES"
    using retryWithBackoff_policy[of ?op] limit by blast
  with thrown limit show ?thesis
    by (simp add: SOLANA_MAX_RETRIES_def)
qed


section \<open>Properties of the sliding-window limiter\<close>

lemma live_live: "x \<le> y \<Longrightarrow> live w y (live w x ts) = live w y ts"
  unfolding live_def filter_filter by (rule filter_cong) auto

lemma live_append: "live w x (xs @ ys) = live w x xs @ live w x ys"
  by (simp add: live_def)

lemma in_window_append: "in_window w t (xs @ ys) = in_window w t xs @ in_window w t ys"
  by (simp add: in_window_def)

lemma in_window_le_live:
  assumes "\<forall>g \<in> set hist. g \<le> now" and "now \<le> t"
  shows "length (in_window w t hist) \<le> length (live w now hist)"
proof -
  have "in_window w t hist = filter (\<lambda>g. t - w < g \<and> g \<le> t) (live w now hist)"
    unfolding in_window_def live_def filter_filter using assms
    by (intro filter_cong) auto
  then show ?thesis by simp
qed

lemma grant_window:
  assumes bound: "\<forall>t. length (in_window w t hist) \<le> c"
    and le: "\<forall>g \<in> set hist. g \<le> now"
    and free: "length (live w now hist) < c"
  shows "length (in_window w t (hist @ [now])) \<le> c"
proof (cases "now \<le> t")
  case True
  have "length (in_window w t [now]) \<le> 1" by (simp add: in_window_def)
  moreover have "length (in_window w t hist) \<le> length (live w now hist)"
    using le True by (rule in_window_le_live)
  ultimately show ?thesis using free by (simp add: in_window_append)
next
  case False
  then have "in_window w t [now] = []" by (simp add: in_window_def)
  then show ?thesis using bound by (simp add: in_window_append)
qed

lemma waitForSlot_inv:
  assumes "window_inv L hist clock" and "waitForSlot L clock = (L', Some g, rest)"
  shows "window_inv L' (hist @ [g]) rest \<and> interval L' = interval L \<and> maxRequests L' = maxRequests L"
  using assms
proof (induction clock arbitrary: L)
  case Nil
  then show ?case by simp
next
  case (Cons now clock)
  let ?w = "interval L"
  let ?L1 = "L\<lparr>timestamps := filter (\<lambda>timestamp. now - timestamp < ?w) (timestamps L)\<rparr>"
  from Cons.prems(1) have srt: "sorted (hist @ now # clock)"
    and agree: "\<forall>x \<in> set (now # clock). live ?w x (timestamps L) = live ?w x hist"
    and bound: "\<forall>t. length (in_window ?w t hist) \<le> maxRequests L"
    by (simp_all add: window_inv_def)
  from srt have le: "\<forall>g \<in> set hist. g \<le> now" and later: "\<forall>x \<in> set clock. now \<le> x"
    and srt': "sorted (hist @ clock)"
    by (auto simp: sorted_append)
  from agree have ts1: "timestamps ?L1 = live ?w now hist" by (simp add: live_def)
  show ?case
  proof (cases "maxRequests ?L1 \<le> length (timestamps ?L1)")
    case True
    have "window_inv ?L1 hist clock"
      unfolding window_inv_def using srt' bound later ts1 by (simp add: live_live)
    moreover from Cons.prems(2) True have "waitForSlot ?L1 clock = (L', Some g, rest)"
      by (simp add: Let_def)
    ultimately show ?thesis using Cons.IH[of ?L1] by simp
  next
    case False
    with Cons.prems(2) have L': "L' = ?L1\<lparr>timestamps := timestamps ?L1 @ [now]\<rparr>"
      and g: "g = now" and rest: "rest = clock"
      by (auto simp: Let_def)
    from False ts1 have free: "length (live ?w now hist) < maxRequests L" by simp
    have "\<forall>t. length (in_window ?w t (hist @ [now])) \<le> maxRequests L"
      using grant_window[OF bound le free] by blast
    moreover have "sorted ((hist @ [now]) @ clock)" using srt by simp
    moreover have "\<forall>x \<in> set clock. live ?w x (timestamps L') = live ?w x (hist @ [now])"
    proof
      fix x assume "x \<in> set clock"
      with later have "now \<le> x" by blast
      then have "live ?w x (live ?w now hist) = live ?w x hist" by (rule live_live)
      moreover have "timestamps L' = live ?w now hist @ [now]" using L' ts1 by simp
      ultimately show "live ?w x (timestamps L') = live ?w x (hist @ [now])"
        by (simp add: live_append)
    qed
    ultimately show ?thesis unfolding window_inv_def using L' g rest by simp
  qed
qed

lemma acquire_inv:
  "window_inv L hist clock \<Longrightarrow>
   length (in_window (interval L) t (hist @ acquire n L clock)) \<le> maxRequests L"
proof (induction n arbitrary: L hist clock)
  case 0
  then show ?case by (simp add: window_inv_def)
next
  case (Suc n)
  obtain L' granted rest where w: "waitForSlot L clock = (L', granted, rest)"
    by (cases "waitForSlot L clock") auto
  show ?case
  proof (cases granted)
    case None
    with w Suc.prems show ?thesis by (simp add: window_inv_def)
  next
    case (Some g)
    from waitForSlot_inv[OF Suc.prems w[unfolded Some]]
    have "window_inv L' (hist @ [g]) rest" "interval L' = interval L" "maxRequests L' = maxRequests L"
      by simp_all
    with Suc.IH[of L' "hist @ [g]" rest] w Some show ?thesis by simp
  qed
qed

text \<open>
  C4. Whatever number of \<open>waitForSlot\<close> calls a limiter of capacity \<open>c\<close> and
  window \<open>w\<close> serves, under a clock that does not run backwards, the window of \<open>w\<close>
  milliseconds that ends at any time \<open>t\<close> (the times \<open>g\<close> with
  \<open>t - w < g \<le> t\<close>) holds at most \<open>c\<close> grants. An attempt of
  \<open>waitForSlot\<close> runs without a break, so the attempts of overlapping calls also form
  such a sequence: failed attempts, then a grant, and so on.
\<close>

theorem sliding_window_bound:
  assumes "sorted clock"
  shows "length (in_window w t (acquire n (RateLimiter_new c w) clock)) \<le> c"
proof -
  have "window_inv (RateLimiter_new c w) [] clock"
    using assms by (simp add: window_inv_def RateLimiter_new_def in_window_def live_def)
  from acquire_inv[OF this, of t n] show ?thesis by (simp add: RateLimiter_new_def)
qed

text \<open>
  The scenario of the specification: capacity 2, window 1000 ms, three calls at time 0;
  the third one is granted at the reading 1000.
\<close>

theorem sliding_window_bound_witness:
  "sorted [0, 0, 0, 1000 :: int] \<and>
   acquire 3 (RateLimiter_new 2 1000) [0, 0, 0, 1000] = [0, 0, 1000] \<and>
   length (in_window 1000 999 (acquire 3 (RateLimiter_new 2 1000) [0, 0, 0, 1000])) \<le> 2"
proof -
  have s: "sorted [0, 0, 0, 1000 :: int]" by simp
  have "acquire 3 (RateLimiter_new 2 1000) [0, 0, 0, 1000] = [0, 0, 1000]" by code_simp
  with s sliding_window_bound[OF s, of 1000 999 3 2] show ?thesis by simp
qed

text \<open>
  The sleep of \<open>waitForSlot\<close> is long enough: on a limiter that is full at the reading
  \<open>now\<close>, the attempt made once the sleep of \<open>waitTime\<close> milliseconds is over
  is granted.
\<close>

lemma waitForSlot_after_sleep:
  assumes cap: "0 < maxRequests L" and len: "length (timestamps L) \<le> maxRequests L"
    and busy: "maxRequests L \<le> length (live (interval L) now (timestamps L))"
    and slept: "waitTime (L\<lparr>timestamps := live (interval L) now (timestamps L)\<rparr>) now = Some w"
      "now + w \<le> woken"
  shows "\<exists>L'. waitForSlot L (now # woken # clock) = (L', Some woken, clock)"
proof -
  let ?ts = "live (interval L) now (timestamps L)"
  from slept(1) obtain oldest rest where ts: "?ts = oldest # rest" and w: "w = interval L - (now - oldest)"
    by (auto simp: waitTime_def split: list.splits)
  have "length ?ts \<le> length (timestamps L)" by (simp add: live_def)
  with busy len have full: "length ?ts = maxRequests L" by simp
  from w slept(2) have "\<not> woken - oldest < interval L" by simp
  then have "live (interval L) woken ?ts = live (interval L) woken rest"
    unfolding ts by (simp add: live_def)
  moreover have "length (live (interval L) woken rest) \<le> length rest" by (simp add: live_def)
  ultimately have "length (live (interval L) woken ?ts) < maxRequests L"
    using full ts by simp
  with busy show ?thesis by (simp add: live_def Let_def)
qed


section \<open>Properties of the token bucket\<close>

lemma tryConsume_run: "snd (tryConsume n now added L) = run [Refill now added, Take n] L"
  by (simp add: tryConsume_def run_def Let_def)

lemma waitForToken_run:
  "waitForToken now added woken added' L = run (waitForToken_steps now added woken added' L) L"
  by (simp add: waitForToken_def waitForToken_steps_def run_def Let_def)

lemma run_append: "run (xs @ ys) L = run ys (run xs L)"
  by (simp add: run_def)

lemma consume_run: "snd (consume n clock L) = run (consume_steps n clock L) L"
proof (induction n clock L rule: consume.induct)
  case (1 n L)
  show ?case by (simp add: run_def)
next
  case (2 n now added clock L)
  show ?case
  proof (cases "fst (tryConsume n now added L)")
    case True
    then show ?thesis
      using tryConsume_run[of n now added L]
      by (cases "tryConsume n now added L") simp
  next
    case False
    then have "snd (consume n ((now, added) # clock) L) =
        snd (consume n clock (snd (tryConsume n now added L)))"
      by (cases "tryConsume n now added L") simp
    also have "\<dots> = run (consume_steps n clock (snd (tryConsume n now added L)))
        (snd (tryConsume n now added L))"
      using "2.IH"[of "fst (tryConsume n now added L)" "snd (tryConsume n now added L)"] False
      by (cases "tryConsume n now added L") simp
    finally show ?thesis
      using False by (simp add: tryConsume_run run_def)
  qed
qed

lemma reset_run: "reset now L = run [Reset now] L"
  by (simp add: run_def)

lemma step_maxTokens [simp]: "maxTokens (step s L) = maxTokens L"
  by (cases s) (simp_all add: refill_def reset_def)

lemma step_upper: "amount_ok s \<Longrightarrow> tokens L \<le> maxTokens L \<Longrightarrow> tokens (step s L) \<le> maxTokens L"
  by (cases s) (auto simp: refill_def reset_def)

lemma step_lower:
  "amount_ok s \<Longrightarrow> s \<noteq> TakeOne \<Longrightarrow> min 0 (maxTokens L) \<le> tokens L \<Longrightarrow>
   min 0 (maxTokens L) \<le> tokens (step s L)"
  by (cases s) (auto simp: refill_def reset_def)

lemma run_maxTokens [simp]: "maxTokens (run steps L) = maxTokens L"
  unfolding run_def by (induction steps arbitrary: L) simp_all

lemma run_upper:
  "\<forall>s \<in> set steps. amount_ok s \<Longrightarrow> tokens L \<le> maxTokens L \<Longrightarrow>
   tokens (run steps L) \<le> maxTokens L"
  unfolding run_def
proof (induction steps arbitrary: L)
  case Nil
  then show ?case by simp
next
  case (Cons s steps)
  then have "tokens (step s L) \<le> maxTokens (step s L)" by (simp add: step_upper)
  with Cons.IH[of "step s L"] Cons.prems(1) show ?case by simp
qed

lemma run_lower:
  "\<forall>s \<in> set steps. amount_ok s \<Longrightarrow> TakeOne \<notin> set steps \<Longrightarrow>
   min 0 (maxTokens L) \<le> tokens L \<Longrightarrow> min 0 (maxTokens L) \<le> tokens (run steps L)"
  unfolding run_def
proof (induction steps arbitrary: L)
  case Nil
  then show ?case by simp
next
  case (Cons s steps)
  from Cons.prems(2) have "s \<noteq> TakeOne" by auto
  with Cons.prems have "min 0 (maxTokens (step s L)) \<le> tokens (step s L)"
    using step_lower[of s L] by simp
  with Cons.IH[of "step s L"] Cons.prems(1,2) show ?case by simp
qed

text \<open>
  C5, as amended. Whatever \<open>waitForToken\<close>, \<open>tryConsume\<close>, \<open>consume\<close> and
  \<open>reset\<close> calls a bucket serves, overlapping or not, if the amounts they consume are
  not negative then the token count never exceeds \<open>maxTokens\<close>; and as long as no
  \<open>waitForToken\<close> has subtracted its token, the count is not negative (not below
  \<open>maxTokens\<close>, for a bucket built with a negative capacity). What the count is after
  the subtraction of \<open>waitForToken\<close> is not part of the statement.
\<close>

theorem token_bucket_bounds:
  assumes "amounts_ok steps"
  shows "tokens (run steps (TokenRateLimiter_new m r t0))
           \<le> maxTokens (run steps (TokenRateLimiter_new m r t0)) \<and>
         (TakeOne \<notin> set steps \<longrightarrow>
            min 0 m \<le> tokens (run steps (TokenRateLimiter_new m r t0)))"
proof -
  let ?L = "TokenRateLimiter_new m r t0"
  from assms have ok: "\<forall>s \<in> set steps. amount_ok s" by (simp add: amounts_ok_def)
  have 0: "tokens ?L \<le> maxTokens ?L" "min 0 (maxTokens ?L) \<le> tokens ?L" "maxTokens ?L = m"
    by (simp_all add: TokenRateLimiter_new_def)
  from run_upper[OF ok 0(1)] run_lower[OF ok _ 0(2)] 0(3) show ?thesis by simp
qed

text \<open>
  A \<open>consume(10)\<close>, a \<open>tryConsume(1)\<close> one and a half seconds later, a \<open>reset\<close>
  and a \<open>tryConsume(3)\<close> on a bucket of 10 tokens that refills one token per second.
\<close>

theorem token_bucket_bounds_witness:
  "amounts_ok (consume_steps 10 [(0, 0)] (TokenRateLimiter_new 10 1 0) @
                [Refill 1500 1, Take 1, Reset 2000, Refill 2500 0, Take 3]) \<and>
   TakeOne \<notin> set (consume_steps 10 [(0, 0)] (TokenRateLimiter_new 10 1 0) @
                [Refill 1500 1, Take 1, Reset 2000, Refill 2500 0, Take 3]) \<and>
   tokens (run (consume_steps 10 [(0, 0)] (TokenRateLimiter_new 10 1 0) @
                [Refill 1500 1, Take 1, Reset 2000, Refill 2500 0, Take 3])
             (TokenRateLimiter_new 10 1 0)) = 7 \<and>
   tokens (run (consume_steps 10 [(0, 0)] (TokenRateLimiter_new 10 1 0) @
                [Refill 1500 1, Take 1, Reset 2000, Refill 2500 0, Take 3])
             (TokenRateLimiter_new 10 1 0))
     \<le> maxTokens (run (consume_steps 10 [(0, 0)] (TokenRateLimiter_new 10 1 0) @
                [Refill 1500 1, Take 1, Reset 2000, Refill 2500 0, Take 3])
             (TokenRateLimiter_new 10 1 0)) \<and>
   min 0 10 \<le> tokens (run (consume_steps 10 [(0, 0)] (TokenRateLimiter_new 10 1 0) @
                [Refill 1500 1, Take 1, Reset 2000, Refill 2500 0, Take 3])
             (TokenRateLimiter_new 10 1 0))"
proof -
  let ?L = "TokenRateLimiter_new 10 1 0"
  let ?steps = "consume_steps 10 [(0, 0)] ?L @ [Refill 1500 1, Take 1, Reset 2000, Refill 2500 0, Take 3]"
  have s: "?steps = [Refill 0 0, Take 10, Refill 1500 1, Take 1, Reset 2000, Refill 2500 0, Take 3]"
    by (simp add: tryConsume_def refill_def TokenRateLimiter_new_def Let_def)
  have ok: "amounts_ok ?steps" and none: "TakeOne \<notin> set ?steps"
    unfolding s by (simp_all add: amounts_ok_def)
  have v: "tokens (run ?steps ?L) = 7"
    unfolding s by (simp add: run_def refill_def reset_def TokenRateLimiter_new_def)
  from token_bucket_bounds[OF ok, of 10 1 0] ok none v show ?thesis by simp
qed

text \<open>
  C5 as stated fails: nothing checks the amount of \<open>tryConsume\<close>. On a new bucket of
  10 tokens, \<open>tryConsume(-1)\<close> finds \<open>10 \<ge> -1\<close> and subtracts \<open>-1\<close>: the
  bucket holds 11 tokens, above \<open>maxTokens\<close>.
\<close>

theorem token_bucket_counterexample:
  "tokens (snd (tryConsume (- 1) 0 0 (TokenRateLimiter_new 10 1 0))) = 11 \<and>
   maxTokens (snd (tryConsume (- 1) 0 0 (TokenRateLimiter_new 10 1 0))) = 10 \<and>
   maxTokens (snd (tryConsume (- 1) 0 0 (TokenRateLimiter_new 10 1 0)))
     < tokens (snd (tryConsume (- 1) 0 0 (TokenRateLimiter_new 10 1 0)))"
  by (simp add: tryConsume_def TokenRateLimiter_new_def refill_def Let_def)

text \<open>
  The subtraction that ends \<open>waitForToken\<close> is not guarded: when the bucket is empty
  and the refill after the sleep adds nothing (the sleep of
  \<^verbatim>\<open>Math.ceil(1000 / this.refillRate)\<close> milliseconds can be too short for a whole
  token in double arithmetic, and an overlapping call can have taken the token), the call
  still subtracts its token and the count falls below zero. \<open>tryConsume\<close> and
  \<open>consume\<close> test before they subtract.
\<close>

lemma waitForToken_subtracts_untested:
  assumes "tokens L < 1" and "added \<le> 0" and "added' \<le> 0"
  shows "tokens (waitForToken now added woken added' L) = tokens L - 1"
  using assms by (simp add: waitForToken_def refill_def Let_def)

lemma waitForToken_below_zero:
  "tokens (waitForToken 0 0 19 0 (waitForToken 0 0 0 0 (TokenRateLimiter_new 1 (1000 / 19) 0))) = - 1"
  by (simp add: waitForToken_def refill_def TokenRateLimiter_new_def Let_def)

text \<open>Nothing checks the capacity either: a bucket built with a negative one starts below zero.\<close>

lemma negative_capacity: "tokens (run [] (TokenRateLimiter_new (- 1) r t0)) = - 1"
  by (simp add: run_def TokenRateLimiter_new_def)


section \<open>Properties of the risk evaluation\<close>

lemma phrase_in_warning:
  "sublist ''maximum position size'' (''Amount exceeds maximum position size of '' @ s)"
proof -
  have "''Amount exceeds maximum position size of '' @ s =
        ''Amount exceeds '' @ ''maximum position size'' @ ('' of '' @ s)"
    by simp
  then show ?thesis unfolding sublist_def by blast
qed

lemma rejected_sel [simp]:
  "approved (rejected w now) = False" "riskScore (rejected w now) = Finite 1"
  "td_warnings (rejected w now) = [w]"
  by (simp_all add: rejected_def)

lemma evaluateTradeRisk_not_approved:
  assumes "(portfolioValue * maxPositionSize (profileOf svc riskProfile)) / 100 < tradeAmount"
  shows "\<not> approved (evaluateTradeRisk svc env token tradeAmount tradePrice portfolioValue riskProfile)"
  using assms unfolding evaluateTradeRisk_def profileOf_def[symmetric] Let_def
  by (simp split: outcome.split option.split)

lemma evaluateTradeRisk_warns:
  assumes "(portfolioValue * maxPositionSize (profileOf svc riskProfile)) / 100 < tradeAmount"
    and "tradeCount (dailyStats svc) < maxDailyTrades svc"
    and "totalLoss (dailyStats svc) \<le> (portfolioValue * maxDailyLoss (profileOf svc riskProfile)) / 100"
    and "analyzeToken env token = Returned (Some metrics)"
    and "calculateRiskMetrics env token = Returned r"
  shows "''Amount exceeds maximum position size of '' @
           numberToString env ((portfolioValue * maxPositionSize (profileOf svc riskProfile)) / 100)
         \<in> set (td_warnings (evaluateTradeRisk svc env token tradeAmount tradePrice portfolioValue riskProfile))"
proof -
  obtain vol where v: "calculateVolatility env token = Returned vol"
    using assms(5) by (cases r) (simp_all add: calculateVolatility_def)
  show ?thesis
    using assms(1-4) v unfolding evaluateTradeRisk_def profileOf_def[symmetric] Let_def
    by simp
qed

text \<open>
  C7, as amended. When the amount exceeds \<open>maxPositionSize\<close> percent of the portfolio
  value, \<open>evaluateTradeRisk\<close> never approves; and the decision carries a warning
  containing "maximum position size" whenever no earlier exit is taken: the daily trade
  limit is not reached, the daily loss limit is not exceeded, the token metrics are
  available and the market analysis does not throw.
\<close>

theorem position_size_gate:
  assumes "(portfolioValue * maxPositionSize (profileOf svc riskProfile)) / 100 < tradeAmount"
  shows "\<not> approved (evaluateTradeRisk svc env token tradeAmount tradePrice portfolioValue riskProfile) \<and>
     (tradeCount (dailyStats svc) < maxDailyTrades svc \<and>
      totalLoss (dailyStats svc) \<le> (portfolioValue * maxDailyLoss (profileOf svc riskProfile)) / 100 \<and>
      (\<exists>metrics. analyzeToken env token = Returned (Some metrics)) \<and>
      (\<exists>r. calculateRiskMetrics env token = Returned r)
      \<longrightarrow> (\<exists>w \<in> set (td_warnings (evaluateTradeRisk svc env token tradeAmount tradePrice portfolioValue riskProfile)).
             sublist ''maximum position size'' w))"
  using evaluateTradeRisk_not_approved[OF assms] evaluateTradeRisk_warns[OF assms] phrase_in_warning
  by blast

text \<open>
  The scenario of the specification: amount 100, portfolio value 1000, the default profile
  (5 percent, so at most 50).
\<close>

theorem position_size_gate_witness:
  "(1000 * maxPositionSize (profileOf (RiskManagementService_new 50 0) ''default'')) / 100 < (100::real) \<and>
   \<not> approved (evaluateTradeRisk (RiskManagementService_new 50 0) sampleEnv ''MINT'' 100 1 1000 ''default'') \<and>
   (\<exists>w \<in> set (td_warnings
        (evaluateTradeRisk (RiskManagementService_new 50 0) sampleEnv ''MINT'' 100 1 1000 ''default'')).
      sublist ''maximum position size'' w)"
proof -
  let ?svc = "RiskManagementService_new 50 0"
  have big: "(1000 * maxPositionSize (profileOf ?svc ''default'')) / 100 < (100::real)"
    by (simp add: profileOf_def RiskManagementService_new_def DEFAULT_RISK_PROFILE_def)
  have pre: "tradeCount (dailyStats ?svc) < maxDailyTrades ?svc"
    "totalLoss (dailyStats ?svc) \<le> (1000 * maxDailyLoss (profileOf ?svc ''default'')) / 100"
    "\<exists>metrics. analyzeToken sampleEnv ''MINT'' = Returned (Some metrics)"
    "\<exists>r. calculateRiskMetrics sampleEnv ''MINT'' = Returned r"
    by (simp_all add: profileOf_def RiskManagementService_new_def DEFAULT_RISK_PROFILE_def sampleEnv_def)
  from position_size_gate[OF big, of sampleEnv "''MINT''" 1] pre big show ?thesis by blast
qed

text \<open>
  C7 as stated fails: with the same amount, when the market analysis has no metrics for
  the token the call returns early with the single warning
  "Unable to analyze token metrics".
\<close>

theorem position_size_gate_counterexample:
  "(1000 * maxPositionSize (profileOf (RiskManagementService_new 50 0) ''default'')) / 100 < (100::real) \<and>
   td_warnings (evaluateTradeRisk (RiskManagementService_new 50 0) noMetricsEnv
        ''MINT'' 100 1 1000 ''default'') = [''Unable to analyze token metrics''] \<and>
   \<not> (\<exists>w \<in> set (td_warnings (evaluateTradeRisk (RiskManagementService_new 50 0) noMetricsEnv
        ''MINT'' 100 1 1000 ''default'')). sublist ''maximum position size'' w)"
  by (simp add: evaluateTradeRisk_def Let_def noMetricsEnv_def profileOf_def RiskManagementService_new_def
        DEFAULT_RISK_PROFILE_def sublist_code)
















lemma updateDailyStats_count:
  "tradeCount (dailyStats (updateDailyStats svc token)) =
     tradeCount (dailyStats svc) + (if 2 \<le> length (tradesOf svc token) then 1 else 0)"
  by (simp add: updateDailyStats_def Let_def)

lemma updateDailyStats_trades [simp]:
  "tradesOf (updateDailyStats svc token) m = tradesOf svc m"
  by (simp add: updateDailyStats_def Let_def tradesOf_def)

lemma updatePosition_completed:
  assumes "fst (updatePosition svc env token tradeAmount tradePrice type) = Returned ()"
  shows "\<exists>svc2. snd (updatePosition svc env token tradeAmount tradePrice type) = updateDailyStats svc2 token \<and>
           tradesOf svc2 token =
             tradesOf svc token @ [\<lparr>trade_amount = tradeAmount, trade_price = tradePrice,
                                   trade_timestamp = dateNow env, trade_type = type\<rparr>] \<and>
           tradeCount (dailyStats svc2) = tradeCount (dailyStats svc)"
proof -
  define ts where "ts = tradesOf svc token @
      [\<lparr>trade_amount = tradeAmount, trade_price = tradePrice, trade_timestamp = dateNow env,
        trade_type = type\<rparr>]"
  define svc1 where "svc1 = svc\<lparr>dailyStats := (dailyStats svc)\<lparr>trades := (trades (dailyStats svc))(token \<mapsto> ts)\<rparr>\<rparr>"
  have 1: "tradesOf (svc1\<lparr>positionRisks := ps\<rparr>) token = ts"
    "tradeCount (dailyStats (svc1\<lparr>positionRisks := ps\<rparr>)) = tradeCount (dailyStats svc)" for ps
    by (simp_all add: svc1_def tradesOf_def)
  have up: "updatePosition svc env token tradeAmount tradePrice type =
     (if type = buy
         then (case calculatePositionRisk env token tradeAmount tradePrice of
                 ThrewError message \<Rightarrow> (ThrewError message, svc1)
               | ThrewOther \<Rightarrow> (ThrewOther, svc1)
               | Returned risk \<Rightarrow>
                   (Returned (),
                    updateDailyStats
                      (svc1\<lparr>positionRisks :=
                         Map_set token
                           \<lparr>pr_riskScore = risk, maxLoss = tradeAmount * tradePrice * (1 / 10),
                            exposure = tradeAmount * tradePrice, liquidationPrice = tradePrice * (9 / 10),
                            pr_recommendation = maintain, pr_warningLevel = low\<rparr>
                           (positionRisks svc1)\<rparr>)
                      token))
         else (Returned (),
               updateDailyStats (svc1\<lparr>positionRisks := Map_delete token (positionRisks svc1)\<rparr>) token))"
    unfolding updatePosition_def Let_def svc1_def ts_def by (rule refl)
  show ?thesis
  proof (cases "type = buy")
    case False
    then have "snd (updatePosition svc env token tradeAmount tradePrice type) =
        updateDailyStats (svc1\<lparr>positionRisks := Map_delete token (positionRisks svc1)\<rparr>) token"
      unfolding up by simp
    with 1 show ?thesis unfolding ts_def by blast
  next
    case True
    with assms obtain risk where "calculatePositionRisk env token tradeAmount tradePrice = Returned risk"
      unfolding up by (cases "calculatePositionRisk env token tradeAmount tradePrice") simp_all
    with True have "snd (updatePosition svc env token tradeAmount tradePrice type) =
        updateDailyStats
                      (svc1\<lparr>positionRisks :=
                         Map_set token
                           \<lparr>pr_riskScore = risk, maxLoss = tradeAmount * tradePrice * (1 / 10),
                            exposure = tradeAmount * tradePrice, liquidationPrice = tradePrice * (9 / 10),
                            pr_recommendation = maintain, pr_warningLevel = low\<rparr>
                           (positionRisks svc1)\<rparr>)
                      token"
      unfolding up by simp
    with 1 show ?thesis unfolding ts_def by blast
  qed
qed

text \<open>
  C10. When \<open>updatePosition\<close> completes, the trade is appended to the mint's ledger and
  \<open>tradeCount\<close> grows by one exactly when the ledger of that mint then holds at least
  two trades; the first trade of a mint leaves \<open>tradeCount\<close> as it was.
\<close>

theorem tradeCount_second_trade:
  assumes "fst (updatePosition svc env token tradeAmount tradePrice type) = Returned ()"
  shows "tradesOf (snd (updatePosition svc env token tradeAmount tradePrice type)) token =
           tradesOf svc token @ [\<lparr>trade_amount = tradeAmount, trade_price = tradePrice,
                                 trade_timestamp = dateNow env, trade_type = type\<rparr>] \<and>
         tradeCount (dailyStats (snd (updatePosition svc env token tradeAmount tradePrice type))) =
           tradeCount (dailyStats svc) +
           (if 2 \<le> length (tradesOf (snd (updatePosition svc env token tradeAmount tradePrice type)) token)
            then 1 else 0) \<and>
         (tradesOf svc token = [] \<longrightarrow>
            tradeCount (dailyStats (snd (updatePosition svc env token tradeAmount tradePrice type))) =
            tradeCount (dailyStats svc))"
proof -
  from updatePosition_completed[OF assms] obtain svc2 where
    s: "snd (updatePosition svc env token tradeAmount tradePrice type) = updateDailyStats svc2 token"
    and t: "tradesOf svc2 token =
             tradesOf svc token @ [\<lparr>trade_amount = tradeAmount, trade_price = tradePrice,
                                   trade_timestamp = dateNow env, trade_type = type\<rparr>]"
    and c: "tradeCount (dailyStats svc2) = tradeCount (dailyStats svc)"
    by blast
  show ?thesis
    unfolding s by (simp add: updateDailyStats_count t c)
qed

text \<open>A buy and then a sell of one mint: the buy is not counted, the sell is.\<close>

theorem tradeCount_second_trade_witness:
  "fst (updatePosition (RiskManagementService_new 50 0) sampleEnv ''MINT'' 10 1 buy) = Returned () \<and>
   tradeCount (dailyStats (snd (updatePosition (RiskManagementService_new 50 0) sampleEnv ''MINT'' 10 1 buy))) = 0 \<and>
   fst (updatePosition (snd (updatePosition (RiskManagementService_new 50 0) sampleEnv ''MINT'' 10 1 buy))
          sampleEnv ''MINT'' 10 2 sell) = Returned () \<and>
   tradeCount (dailyStats
     (snd (updatePosition (snd (updatePosition (RiskManagementService_new 50 0) sampleEnv ''MINT'' 10 1 buy))
          sampleEnv ''MINT'' 10 2 sell))) = 1"
proof -
  let ?s0 = "RiskManagementService_new 50 0"
  let ?s1 = "snd (updatePosition ?s0 sampleEnv ''MINT'' 10 1 buy)"
  have r: "calculatePositionRisk sampleEnv ''MINT'' 10 1 = Returned 1"
    by (simp add: calculatePositionRisk_def sampleEnv_def)
  have c1: "fst (updatePosition ?s0 sampleEnv ''MINT'' 10 1 buy) = Returned ()"
    by (simp add: updatePosition_def Let_def r)
  have c2: "fst (updatePosition ?s1 sampleEnv ''MINT'' 10 2 sell) = Returned ()"
    by (simp add: updatePosition_def Let_def)
  have e: "tradesOf ?s0 ''MINT'' = []" "tradeCount (dailyStats ?s0) = 0"
    by (simp_all add: tradesOf_def RiskManagementService_new_def)
  from tradeCount_second_trade[OF c1] e
  have t1: "tradesOf ?s1 ''MINT'' =
      [\<lparr>trade_amount = 10, trade_price = 1, trade_timestamp = dateNow sampleEnv, trade_type = buy\<rparr>]"
    and n1: "tradeCount (dailyStats ?s1) = 0"
    by simp_all
  from tradeCount_second_trade[OF c2] t1 n1
  have "tradeCount (dailyStats (snd (updatePosition ?s1 sampleEnv ''MINT'' 10 2 sell))) = 1"
    by simp
  with c1 c2 n1 show ?thesis by simp
qed


section \<open>Properties of the order manager\<close>

lemma updateOrderStatus_pending [simp]:
  "pendingOrders (updateOrderStatus svc oid st r now) = pendingOrders svc"
  by (simp add: updateOrderStatus_def Let_def split: option.splits)

lemma updateOrderStatus_other:
  "j \<noteq> oid \<Longrightarrow> orders (updateOrderStatus svc oid st r now) j = orders svc j"
  by (simp add: updateOrderStatus_def Let_def split: option.splits)

lemma updateOrderStatus_status:
  "orders svc oid = Some order \<Longrightarrow>
   \<exists>o'. orders (updateOrderStatus svc oid st r now) oid = Some o' \<and> status o' = st \<and>
        retryCount o' = retryCount order"
  by (simp add: updateOrderStatus_def Let_def split: option.splits ExecutionResult.splits)

lemma processOrder_other:
  "j \<noteq> oid \<Longrightarrow> orders (processOrder svc env oid) j = orders svc j"
  by (simp add: processOrder_def updateOrderStatus_other split: option.splits ExecutionResult.splits)

lemma processOrder_pending:
  "pendingOrders (processOrder svc env oid) = pendingOrders svc \<or>
   pendingOrders (processOrder svc env oid) = Set_delete oid (pendingOrders svc)"
  by (simp add: processOrder_def split: option.splits ExecutionResult.splits)

lemma processOrder_pending_other:
  "j \<noteq> oid \<Longrightarrow> j \<in> set (pendingOrders (processOrder svc env oid)) \<longleftrightarrow> j \<in> set (pendingOrders svc)"
  using processOrder_pending[of svc env oid] by (auto simp: Set_delete_def)

lemma processOrder_distinct:
  "distinct (pendingOrders svc) \<Longrightarrow> distinct (pendingOrders (processOrder svc env oid))"
  using processOrder_pending[of svc env oid] by (auto simp: Set_delete_def distinct_removeAll)

lemma processOrder_subset:
  "set (pendingOrders (processOrder svc env oid)) \<subseteq> set (pendingOrders svc)"
  using processOrder_pending[of svc env oid] by (auto simp: Set_delete_def)

lemma processOrder_self:
  assumes "orders svc oid = Some order"
  shows "\<exists>o'. orders (processOrder svc env oid) oid = Some o' \<and>
           (status o' = status order \<and> oid \<in> set (pendingOrders (processOrder svc env oid)) = (oid \<in> set (pendingOrders svc))
            \<or> oid \<notin> set (pendingOrders (processOrder svc env oid)))"
proof (cases "executeOrder order env")
  case (ExecutionFailed message)
  show ?thesis
  proof (cases "MAX_RETRIES \<le> retryCount order")
    case True
    with assms ExecutionFailed show ?thesis
      using updateOrderStatus_status[of "svc\<lparr>pendingOrders := Set_delete oid (pendingOrders svc)\<rparr>" oid order FAILED]
      by (auto simp: processOrder_def Set_delete_def)
  next
    case False
    with assms ExecutionFailed show ?thesis by (simp add: processOrder_def)
  qed
next
  case (ExecutionSucceeded sg p a t)
  with assms show ?thesis
    using updateOrderStatus_status[of "svc\<lparr>pendingOrders := Set_delete oid (pendingOrders svc)\<rparr>" oid order FILLED]
    by (auto simp: processOrder_def Set_delete_def)
qed

lemma processOrder_inv:
  assumes "pending_inv svc"
  shows "pending_inv (processOrder svc env oid)"
proof -
  have d: "distinct (pendingOrders (processOrder svc env oid))"
    using assms by (simp add: pending_inv_def processOrder_distinct)
  have "\<exists>order. orders (processOrder svc env oid) j = Some order \<and> status order = PENDING"
    if j: "j \<in> set (pendingOrders (processOrder svc env oid))" for j
  proof (cases "j = oid")
    case False
    with j have "j \<in> set (pendingOrders svc)" by (simp add: processOrder_pending_other)
    with assms False show ?thesis by (auto simp: pending_inv_def processOrder_other)
  next
    case True
    with j processOrder_subset[of svc env oid] have "oid \<in> set (pendingOrders svc)" by blast
    with assms obtain order where o: "orders svc oid = Some order" "status order = PENDING"
      by (auto simp: pending_inv_def)
    from processOrder_self[OF o(1), of env] j True o(2) show ?thesis by auto
  qed
  with d show ?thesis by (auto simp: pending_inv_def)
qed

lemma fold_process_inv:
  "pending_inv svc \<Longrightarrow> pending_inv (foldl (\<lambda>s oid. processOrder s (env oid) oid) svc ids)"
  by (induction ids arbitrary: svc) (auto intro: processOrder_inv)

lemma fold_process_other:
  "oid \<notin> set ids \<Longrightarrow>
   orders (foldl (\<lambda>s j. processOrder s (env j) j) svc ids) oid = orders svc oid \<and>
   (oid \<in> set (pendingOrders (foldl (\<lambda>s j. processOrder s (env j) j) svc ids)) \<longleftrightarrow>
    oid \<in> set (pendingOrders svc))"
  by (induction ids arbitrary: svc) (auto simp: processOrder_other processOrder_pending_other)


lemma scan_inv: "pending_inv svc \<Longrightarrow> pending_inv (processPendingOrders svc env)"
  by (simp add: processPendingOrders_def fold_process_inv)

lemma scan_terminal:
  assumes "pending_inv svc" and "orders svc oid = Some order" and "status order \<noteq> PENDING"
  shows "orders (processPendingOrders svc env) oid = Some order"
proof -
  from assms have "oid \<notin> set (pendingOrders svc)" by (auto simp: pending_inv_def)
  then show ?thesis using assms(2) by (simp add: processPendingOrders_def fold_process_other)
qed

lemma cancelOrder_inv: "pending_inv svc \<Longrightarrow> pending_inv (snd (cancelOrder svc oid now))"
proof (cases "orders svc oid")
  case None
  assume "pending_inv svc" with None show ?thesis by (simp add: cancelOrder_def)
next
  case (Some order)
  assume inv: "pending_inv svc"
  show ?thesis
  proof (cases "status order = PENDING")
    case False
    with Some inv show ?thesis by (simp add: cancelOrder_def)
  next
    case True
    let ?s = "svc\<lparr>pendingOrders := Set_delete oid (pendingOrders svc)\<rparr>"
    have "pending_inv (updateOrderStatus ?s oid CANCELLED None now)"
      unfolding pending_inv_def using inv
      by (auto simp: pending_inv_def Set_delete_def distinct_removeAll updateOrderStatus_other)
    with Some True show ?thesis by (simp add: cancelOrder_def)
  qed
qed

lemma cancelOrder_terminal:
  "orders svc oid = Some order \<Longrightarrow> status order \<noteq> PENDING \<Longrightarrow>
   orders (snd (cancelOrder svc j now)) oid = Some order"
  by (cases "j = oid") (auto simp: cancelOrder_def updateOrderStatus_other split: option.splits)

lemma createOrder_inv:
  assumes "pending_inv svc" and "orders svc newId = None"
  shows "pending_inv (snd (createOrder svc rc newId now m s t a p st))"
proof -
  from assms have "newId \<notin> set (pendingOrders svc)" by (auto simp: pending_inv_def)
  with assms(1) show ?thesis
    by (auto simp: createOrder_def Let_def Set_add_def pending_inv_def split: outcome.splits)
qed

lemma createOrder_terminal:
  "orders svc newId = None \<Longrightarrow> orders svc oid = Some order \<Longrightarrow>
   orders (snd (createOrder svc rc newId now m s t a p st)) oid = Some order"
  by (auto simp: createOrder_def Let_def split: outcome.splits)

lemma perform_inv: "pending_inv svc \<Longrightarrow> undisturbed svc op \<Longrightarrow> pending_inv (perform svc op)"
  by (cases op) (auto intro: createOrder_inv scan_inv cancelOrder_inv processOrder_inv)

lemma resume_terminal:
  assumes "pending_inv svc" and "j \<in> set (pendingOrders svc)"
    and "orders svc oid = Some order" and "status order \<noteq> PENDING"
  shows "orders (processOrder svc env j) oid = Some order"
proof -
  from assms have "oid \<noteq> j" by (auto simp: pending_inv_def)
  with assms(3) show ?thesis by (simp add: processOrder_other)
qed

lemma perform_terminal:
  "pending_inv svc \<Longrightarrow> undisturbed svc op \<Longrightarrow> orders svc oid = Some order \<Longrightarrow>
   status order \<noteq> PENDING \<Longrightarrow> orders (perform svc op) oid = Some order"
  by (cases op)
     (auto intro: createOrder_terminal scan_terminal cancelOrder_terminal resume_terminal)

lemma updateOrderStatus_known:
  "known svc oid \<Longrightarrow> known (updateOrderStatus svc j st r now) oid"
  by (auto simp: known_def updateOrderStatus_def Let_def split: option.splits)

lemma processOrder_known:
  "known svc oid \<Longrightarrow> known (processOrder svc env j) oid"
  unfolding processOrder_def
  by (auto intro!: updateOrderStatus_known split: option.splits ExecutionResult.splits)
     (auto simp: known_def)

lemma fold_process_known:
  "known svc oid \<Longrightarrow> known (foldl (\<lambda>s j. processOrder s (env j) j) svc ids) oid"
  by (induction ids arbitrary: svc) (auto intro: processOrder_known)

lemma perform_known: "known svc oid \<Longrightarrow> known (perform svc op) oid"
proof (cases op)
  case (CreateOrder rc newId now m s t a p st)
  assume "known svc oid"
  with CreateOrder show ?thesis
    by (auto simp: known_def createOrder_def Let_def split: outcome.splits)
next
  case (Scan env)
  assume "known svc oid"
  with Scan show ?thesis by (simp add: processPendingOrders_def fold_process_known)
next
  case (CancelOrder j now)
  assume k: "known svc oid"
  then have "known (svc\<lparr>pendingOrders := Set_delete j (pendingOrders svc)\<rparr>) oid"
    by (simp add: known_def)
  then have "known (updateOrderStatus (svc\<lparr>pendingOrders := Set_delete j (pendingOrders svc)\<rparr>) j CANCELLED None now) oid"
    by (rule updateOrderStatus_known)
  with CancelOrder k show ?thesis
    by (simp add: cancelOrder_def split: option.splits)
next
  case (Resume j env)
  assume "known svc oid"
  with Resume show ?thesis by (simp add: processOrder_known)
qed

lemma history_known:
  "known svc oid \<Longrightarrow> known (foldl perform svc ops) oid"
  by (induction ops arbitrary: svc) (auto intro: perform_known)

lemma history_inv:
  "pending_inv svc \<Longrightarrow> undisturbed_history svc ops \<Longrightarrow> pending_inv (foldl perform svc ops)"
  by (induction ops arbitrary: svc) (auto simp: perform_inv)

lemma history_terminal:
  "pending_inv svc \<Longrightarrow> undisturbed_history svc ops \<Longrightarrow> orders svc oid = Some order \<Longrightarrow>
   status order \<noteq> PENDING \<Longrightarrow> orders (foldl perform svc ops) oid = Some order"
  by (induction ops arbitrary: svc) (auto simp: perform_inv perform_terminal)

lemma undisturbed_history_append:
  "undisturbed_history svc (xs @ ys) \<longleftrightarrow>
   undisturbed_history svc xs \<and> undisturbed_history (foldl perform svc xs) ys"
  by (induction xs arbitrary: svc) auto

text \<open>
  The life cycle where nothing disturbs a scan. In every history of \<open>createOrder\<close>,
  scan and \<open>cancelOrder\<close> operations on a new service in which every generated
  identifier is new and every loop body that goes on after its \<open>await\<close>s finds its order
  still pending, an order that is stored at some point stays stored, and its status at
  any later point is the same unless it was PENDING.
\<close>

lemma undisturbed_lifecycle:
  assumes "undisturbed_history OrderManagementService_new (earlier @ later)"
    and "orders (foldl perform OrderManagementService_new earlier) oid = Some order"
  shows "\<exists>order'. orders (foldl perform OrderManagementService_new (earlier @ later)) oid = Some order' \<and>
           (status order' = status order \<or> status order = PENDING)"
proof -
  let ?s = "foldl perform OrderManagementService_new earlier"
  have inv0: "pending_inv OrderManagementService_new"
    by (simp add: pending_inv_def OrderManagementService_new_def)
  from assms(1) have f1: "undisturbed_history OrderManagementService_new earlier"
    and f2: "undisturbed_history ?s later"
    by (simp_all add: undisturbed_history_append)
  have inv: "pending_inv ?s" using inv0 f1 by (rule history_inv)
  show ?thesis
  proof (cases "status order = PENDING")
    case True
    from assms(2) have "known ?s oid" by (simp add: known_def)
    then have "known (foldl perform ?s later) oid" by (rule history_known)
    with True show ?thesis by (auto simp: known_def)
  next
    case False
    from history_terminal[OF inv f2 assms(2) False] show ?thesis by simp
  qed
qed

lemma oneOrder_eq:
  "oneOrder = \<lparr>orders = [''order_1'' \<mapsto> sampleOrder], pendingOrders = [''order_1'']\<rparr>"
  by (simp add: oneOrder_def createOrder_def OrderManagementService_new_def approvedDecision_def
        MAX_CONCURRENT_ORDERS_def Set_add_def Let_def sampleOrder_def)

lemma noOrderBook_fails: "executeOrder order (noOrderBook oid) = ExecutionFailed ''Unable to fetch order book''"
  by (simp add: executeOrder_def noOrderBook_def)

lemma threeAttempts_state:
  "foldl perform OrderManagementService_new threeAttempts =
     \<lparr>orders = [''order_1'' \<mapsto>
         sampleOrder\<lparr>retryCount := 3,
                      warnings := [''Unable to fetch order book'', ''Unable to fetch order book'',
                                   ''Unable to fetch order book'']\<rparr>],
      pendingOrders = [''order_1'']\<rparr>"
proof -
  have "foldl perform OrderManagementService_new threeAttempts =
      foldl perform oneOrder [Scan noOrderBook, Scan noOrderBook, Scan noOrderBook]"
    by (simp add: threeAttempts_def oneOrder_def)
  then show ?thesis
    by (simp add: oneOrder_eq processPendingOrders_def processOrder_def noOrderBook_fails
          MAX_RETRIES_def sampleOrder_def numeral_3_eq_3)
qed

text \<open>
  C2 does not hold of the code: a status can leave CANCELLED. An order is created and
  three scans attempt it in vain, so that it is PENDING with \<open>retryCount = 3\<close>. The
  fourth scan starts the loop body for the order and waits at an \<open>await\<close>. Now
  \<open>cancelOrder\<close> finds the order PENDING, removes it from the pending set and sets it
  CANCELLED. The loop body goes on: the attempt has failed, \<open>retryCount \<ge> MAX_RETRIES\<close>,
  and \<open>updateOrderStatus\<close>, which does not read the status, sets the order FAILED.
  \<open>cancelOrder\<close> tests the status before it writes; the scan does not test it again
  after its \<open>await\<close>s.
\<close>

theorem cancel_during_scan:
  "map_option status (orders (foldl perform OrderManagementService_new threeAttempts) ''order_1'')
     = Some PENDING \<and>
   ''order_1'' \<in> set (pendingOrders (foldl perform OrderManagementService_new threeAttempts)) \<and>
   fst (cancelOrder (foldl perform OrderManagementService_new threeAttempts) ''order_1'' 7) \<and>
   map_option status (orders (foldl perform OrderManagementService_new
       (threeAttempts @ [CancelOrder ''order_1'' 7])) ''order_1'')
     = Some CANCELLED \<and>
   map_option status (orders (foldl perform OrderManagementService_new
       (threeAttempts @ [CancelOrder ''order_1'' 7, Resume ''order_1'' (noOrderBook ''order_1'')]))
       ''order_1'')
     = Some FAILED"
  by (simp add: threeAttempts_state cancelOrder_def updateOrderStatus_def processOrder_def
        noOrderBook_fails Set_delete_def MAX_RETRIES_def sampleOrder_def Let_def)












lemma scans_append: "scans svc (xs @ ys) = scans (scans svc xs) ys"
  by (simp add: scans_def)






lemma foldl_plus_sum: "foldl (\<lambda>sum x. sum + g x) a xs = a + sum_list (map g xs)"
  for a :: real
  by (induction xs arbitrary: a) simp_all

text \<open>
  C3. Whatever fills an order already has, once \<open>updateOrderStatus\<close> has recorded a
  fill the order's \<open>averagePrice\<close> is the sum of \<open>price * amount\<close> over all its
  fills divided by the sum of their amounts (a finite number when that sum is not zero),
  and its \<open>remainingAmount\<close> is \<open>max 0 (amount - sum of the fill amounts)\<close>.
  Numbers are reals: the equalities are exact.
\<close>

theorem fill_accounting:
  assumes "orders svc oid = Some order"
  shows "\<exists>order'.
           orders (updateOrderStatus svc oid newStatus (Some (ExecutionSucceeded signature p a t)) now) oid
             = Some order' \<and>
           fills order' = fills order @ [\<lparr>fill_price = p, fill_amount = a, fill_timestamp = t\<rparr>] \<and>
           averagePrice order' =
             js_div (\<Sum>fill\<leftarrow>fills order'. fill_price fill * fill_amount fill)
                    (\<Sum>fill\<leftarrow>fills order'. fill_amount fill) \<and>
           remainingAmount order' = max 0 (amount order' - (\<Sum>fill\<leftarrow>fills order'. fill_amount fill)) \<and>
           ((\<Sum>fill\<leftarrow>fills order'. fill_amount fill) \<noteq> 0 \<longrightarrow>
              averagePrice order' =
                Finite ((\<Sum>fill\<leftarrow>fills order'. fill_price fill * fill_amount fill) /
                        (\<Sum>fill\<leftarrow>fills order'. fill_amount fill)))"
  using assms
  by (simp add: updateOrderStatus_def Let_def foldl_plus_sum js_div_def)

text \<open>A second fill of 5 at price 4 on an order of 10 that holds a fill of 5 at price 2.\<close>

theorem fill_accounting_witness:
  "orders \<lparr>orders = [''order_1'' \<mapsto>
             sampleOrder\<lparr>fills := [\<lparr>fill_price = 2, fill_amount = 5, fill_timestamp = 1\<rparr>]\<rparr>],
           pendingOrders = []\<rparr> ''order_1''
     = Some (sampleOrder\<lparr>fills := [\<lparr>fill_price = 2, fill_amount = 5, fill_timestamp = 1\<rparr>]\<rparr>) \<and>
   (\<exists>order'.
      orders (updateOrderStatus
                \<lparr>orders = [''order_1'' \<mapsto>
                   sampleOrder\<lparr>fills := [\<lparr>fill_price = 2, fill_amount = 5, fill_timestamp = 1\<rparr>]\<rparr>],
                 pendingOrders = []\<rparr>
                ''order_1'' FILLED (Some (ExecutionSucceeded ''sig'' 4 5 7)) 8) ''order_1'' = Some order' \<and>
      averagePrice order' = Finite 3 \<and> remainingAmount order' = 0)"
proof -
  let ?o = "sampleOrder\<lparr>fills := [\<lparr>fill_price = 2, fill_amount = 5, fill_timestamp = 1\<rparr>]\<rparr>"
  let ?svc = "\<lparr>orders = [''order_1'' \<mapsto> ?o], pendingOrders = []\<rparr>"
  have o: "orders ?svc ''order_1'' = Some ?o" by simp
  from fill_accounting[OF o, of FILLED "''sig''" 4 5 7 8] obtain order' where
    1: "orders (updateOrderStatus ?svc ''order_1'' FILLED (Some (ExecutionSucceeded ''sig'' 4 5 7)) 8)
          ''order_1'' = Some order'"
    and 2: "fills order' = fills ?o @ [\<lparr>fill_price = 4, fill_amount = 5, fill_timestamp = 7\<rparr>]"
    and 3: "averagePrice order' =
             js_div (\<Sum>fill\<leftarrow>fills order'. fill_price fill * fill_amount fill)
                    (\<Sum>fill\<leftarrow>fills order'. fill_amount fill)"
    and 4: "remainingAmount order' = max 0 (amount order' - (\<Sum>fill\<leftarrow>fills order'. fill_amount fill))"
    by blast
  have a: "amount order' = 10"
    using 1 by (auto simp: updateOrderStatus_def Let_def sampleOrder_def)
  have "averagePrice order' = Finite 3" "remainingAmount order' = 0"
    unfolding 3 4 2 a by (simp_all add: js_div_def)
  with 1 o show ?thesis by blast
qed

text \<open>
  C9. When the pending set is full, the risk check throws or it does not approve,
  \<open>createOrder\<close> returns \<open>null\<close> and the service (the orders map and the pending
  set) is what it was; in every other case it returns the new identifier.
\<close>

theorem createOrder_declines:
  "(declines svc riskCheck \<longrightarrow> createOrder svc riskCheck newId now m s t a p st = (None, svc)) \<and>
   (\<not> declines svc riskCheck \<longrightarrow> fst (createOrder svc riskCheck newId now m s t a p st) = Some newId)"
  by (auto simp: declines_def createOrder_def Let_def split: outcome.splits)

theorem createOrder_declines_witness:
  "declines oneOrder (Returned (approvedDecision\<lparr>approved := False\<rparr>)) \<and>
   createOrder oneOrder (Returned (approvedDecision\<lparr>approved := False\<rparr>)) ''order_2'' 3
     ''MINT'' SELL LIMIT 4 (Some 2) NORMAL = (None, oneOrder) \<and>
   \<not> declines oneOrder (Returned approvedDecision) \<and>
   fst (createOrder oneOrder (Returned approvedDecision) ''order_2'' 3
     ''MINT'' SELL LIMIT 4 (Some 2) NORMAL) = Some ''order_2''"
proof -
  have d: "declines oneOrder (Returned (approvedDecision\<lparr>approved := False\<rparr>))"
    by (simp add: declines_def)
  have n: "\<not> declines oneOrder (Returned approvedDecision)"
    by (simp add: declines_def oneOrder_eq MAX_CONCURRENT_ORDERS_def approvedDecision_def)
  from createOrder_declines[of oneOrder "Returned (approvedDecision\<lparr>approved := False\<rparr>)"
      "''order_2''" 3 "''MINT''" SELL LIMIT 4 "Some 2" NORMAL]
    createOrder_declines[of oneOrder "Returned approvedDecision"
      "''order_2''" 3 "''MINT''" SELL LIMIT 4 "Some 2" NORMAL] d n
  show ?thesis by blast
qed

end
